theory Spec2Isabelle
  imports Main "HOL-Library.Word"
begin

section \<open>The durable work queue of poomer-discord-vmax\<close>

text \<open>
  A shallow embedding of \<^verbatim>\<open>src/poomer-discord-vmax.cpp\<close>: the SQLite-backed
  \<^verbatim>\<open>WorkQueue\<close> class, \<^verbatim>\<open>parseOrbit\<close>, \<^verbatim>\<open>processVmaxFile\<close> and
  \<^verbatim>\<open>workerThread\<close>.

  Conventions of the embedding.
  \<^item> The table \<^verbatim>\<open>work_queue\<close> is the list of its rows in rowid order. Each SQL statement
    of the source is written as the list operation it denotes: \<^verbatim>\<open>DELETE ... WHERE P\<close> is a
    \<open>filter\<close>, \<^verbatim>\<open>UPDATE ... SET ... WHERE P\<close> is a \<open>map\<close>, \<^verbatim>\<open>INSERT\<close> appends a row,
    \<^verbatim>\<open>SELECT ... ORDER BY created_at ASC LIMIT 1\<close> is the head of the stable sort by
    \<open>created_at\<close> (rows with equal keys stay in rowid order, the order in which the index
    on (status, created_at) delivers them).
  \<^item> SQLite INTEGER values and \<^verbatim>\<open>int64_t\<close> are \<open>int\<close>; the one narrowing read of the
    source, \<^verbatim>\<open>sqlite3_column_int\<close>, is written out. \<^verbatim>\<open>uint64_t\<close> identifiers, which are
    only stored and read back, are \<open>64 word\<close>.
  \<^item> The SQLite library calls are taken on a healthy database: \<^verbatim>\<open>sqlite3_open\<close>,
    \<^verbatim>\<open>sqlite3_prepare_v2\<close> and \<^verbatim>\<open>sqlite3_exec\<close> return \<^verbatim>\<open>SQLITE_OK\<close>, and
    \<^verbatim>\<open>sqlite3_step\<close> returns \<^verbatim>\<open>SQLITE_ROW\<close> or \<^verbatim>\<open>SQLITE_DONE\<close> as the table dictates.
  \<^item> Strings hold no NUL character (\<^verbatim>\<open>sqlite3_bind_text\<close> with length \<^verbatim>\<open>-1\<close> stores a
    string up to its first NUL), and rowids stay below the largest 64-bit integer, so that
    an \<^verbatim>\<open>INSERT\<close> finds a rowid.
  \<^item> Every method of \<^verbatim>\<open>WorkQueue\<close> that holds \<^verbatim>\<open>queue_mutex\<close> is one atomic function
    from queue state to queue state; \<^verbatim>\<open>std::time(nullptr)\<close> is the parameter \<open>now\<close>.
    \<^verbatim>\<open>requestShutdown\<close>, \<^verbatim>\<open>setCurrentJobId\<close> and \<^verbatim>\<open>shouldCancelCurrentJob\<close> take no
    lock; \<^verbatim>\<open>dequeue\<close>, which holds the lock between its statements and gives it up in
    \<^verbatim>\<open>queue_condition.wait\<close>, is followed statement by statement in \<open>dequeue_run\<close>.
\<close>

subsection \<open>Data model\<close>

text \<open>\<^verbatim>\<open>struct WorkItem\<close> (lines 82-94).\<close>

record WorkItem =
  item_id :: int
  item_attachment_url :: string
  item_original_filename :: string
  item_channel_id :: "64 word"
  item_user_id :: "64 word"
  item_username :: string
  item_message_content :: string
  item_created_at :: int
  item_retry_count :: int

text \<open>The constructor \<^verbatim>\<open>WorkItem()\<close>: numeric members 0, strings empty.\<close>

definition WorkItem_new :: WorkItem where
  "WorkItem_new =
     \<lparr>item_id = 0, item_attachment_url = [], item_original_filename = [],
      item_channel_id = 0, item_user_id = 0, item_username = [],
      item_message_content = [], item_created_at = 0, item_retry_count = 0\<rparr>"

text \<open>One row of the table \<^verbatim>\<open>work_queue\<close> (the \<^verbatim>\<open>CREATE TABLE\<close> of lines 127-141).\<close>

record row =
  row_id :: int
  attachment_url :: string
  original_filename :: string
  channel_id :: "64 word"
  user_id :: "64 word"
  created_at :: int
  retry_count :: int
  status :: string
  bella_start_time :: int
  bella_end_time :: int
  username :: string
  message_content :: string

text \<open>
  The members of \<^verbatim>\<open>class WorkQueue\<close> (lines 102-107). \<open>db\<close> is the content of the table
  behind the handle \<^verbatim>\<open>sqlite3* db\<close> and \<open>db_seq\<close> the AUTOINCREMENT counter that SQLite
  keeps for it in \<^verbatim>\<open>sqlite_sequence\<close> (the largest rowid ever handed out).
  \<open>queue_condition\<close> is the list of the notifications issued on the condition variable
  of that name, oldest first. A condition variable keeps no memory of them: a
  notification wakes a thread that waits at that moment and is lost otherwise. What a
  notification does to a waiting caller of \<^verbatim>\<open>dequeue\<close> is said by \<open>wait_on\<close> and
  \<open>dequeue_run\<close> below.
\<close>

datatype notification = notify_one | notify_all

record WorkQueue =
  db :: "row list"
  db_seq :: int
  queue_condition :: "notification list"
  shutdown_requested :: bool
  cancel_current_job :: bool
  current_job_id :: int

text \<open>
  \<^verbatim>\<open>sqlite3_column_int\<close> returns the low 32 bits of the stored 64-bit integer as a
  signed \<^verbatim>\<open>int\<close>.
\<close>

definition sqlite3_column_int :: "int \<Rightarrow> int" where
  "sqlite3_column_int v = signed_take_bit 31 v"

subsection \<open>WorkQueue operations\<close>

text \<open>
  \<^verbatim>\<open>WorkQueue::initialize\<close> (lines 118-186) on the table found in the database file:
  the retention purge with \<^verbatim>\<open>cutoff_time = std::time(nullptr) - 24*60*60\<close>, then the
  reset of stuck \<^verbatim>\<open>'processing'\<close> rows.
\<close>

definition initialize :: "int \<Rightarrow> WorkQueue \<Rightarrow> bool \<times> WorkQueue" where
  "initialize now q =
     (let cutoff_time = now - (24 * 60 * 60);
          cleaned = filter (\<lambda>r. \<not> (status r = ''completed'' \<and> bella_end_time r < cutoff_time)) (db q);
          reset = map (\<lambda>r. if status r = ''processing'' \<and> bella_end_time r = 0
                            then r\<lparr>status := ''pending''\<rparr> else r) cleaned
      in (True, q\<lparr>db := reset\<rparr>))"

text \<open>
  The rowid an \<^verbatim>\<open>INTEGER PRIMARY KEY AUTOINCREMENT\<close> column gives to an inserted row:
  one more than the largest rowid that ever existed in the table.
\<close>

definition next_rowid :: "WorkQueue \<Rightarrow> int" where
  "next_rowid q = fold max (map row_id (db q)) (db_seq q) + 1"

text \<open>
  \<^verbatim>\<open>WorkQueue::enqueue\<close> (lines 188-225). The \<^verbatim>\<open>INSERT\<close> names eight columns; the others
  take their defaults (\<^verbatim>\<open>status 'pending'\<close>, both bella times 0). The call ends with
  \<^verbatim>\<open>queue_condition.notify_one()\<close> (line 223).
\<close>

definition enqueue :: "WorkItem \<Rightarrow> WorkQueue \<Rightarrow> bool \<times> WorkQueue" where
  "enqueue item q =
     (let new_id = next_rowid q;
          r = \<lparr>row_id = new_id,
               attachment_url = item_attachment_url item,
               original_filename = item_original_filename item,
               channel_id = item_channel_id item,
               user_id = item_user_id item,
               created_at = item_created_at item,
               retry_count = item_retry_count item,
               status = ''pending'',
               bella_start_time = 0,
               bella_end_time = 0,
               username = item_username item,
               message_content = item_message_content item\<rparr>
      in (True, q\<lparr>db := db q @ [r], db_seq := new_id,
                  queue_condition := queue_condition q @ [notify_one]\<rparr>))"

text \<open>\<^verbatim>\<open>WorkQueue::markProcessing\<close> (lines 545-559), private, called by \<^verbatim>\<open>dequeue\<close>.\<close>

definition markProcessing :: "int \<Rightarrow> WorkQueue \<Rightarrow> bool \<times> WorkQueue" where
  "markProcessing item_id' q =
     (True, q\<lparr>db := map (\<lambda>r. if row_id r = item_id' then r\<lparr>status := ''processing''\<rparr> else r) (db q)\<rparr>)"

text \<open>
  The \<^verbatim>\<open>SELECT ... WHERE status = 'pending' ORDER BY created_at ASC LIMIT 1\<close> of
  \<^verbatim>\<open>dequeue\<close>, and the nine columns copied into the \<^verbatim>\<open>WorkItem\<close> (lines 248-256).
\<close>

definition select_oldest :: "string \<Rightarrow> row list \<Rightarrow> row option" where
  "select_oldest st rows =
     (case sort_key created_at (filter (\<lambda>r. status r = st) rows) of
        [] \<Rightarrow> None
      | r # _ \<Rightarrow> Some r)"

definition item_of_row :: "row \<Rightarrow> WorkItem" where
  "item_of_row r =
     \<lparr>item_id = row_id r,
      item_attachment_url = attachment_url r,
      item_original_filename = original_filename r,
      item_channel_id = channel_id r,
      item_user_id = user_id r,
      item_username = username r,
      item_message_content = message_content r,
      item_created_at = created_at r,
      item_retry_count = sqlite3_column_int (retry_count r)\<rparr>"

text \<open>
  \<^verbatim>\<open>WorkQueue::dequeue\<close> (lines 227-275) blocks on \<^verbatim>\<open>queue_condition\<close>. One pass of its
  \<^verbatim>\<open>while (!shutdown_requested)\<close> loop, the test of line 230 and the \<^verbatim>\<open>SELECT\<close> of line
  246 with nothing happening between them, either returns or waits; the result of the
  blocking call is described by \<open>Returns\<close> and \<open>Waits\<close>. The result of \<^verbatim>\<open>markProcessing\<close>
  is not looked at (line 259).
\<close>

datatype 'a blocking = Returns 'a | Waits

definition dequeue_pass :: "WorkItem \<Rightarrow> WorkQueue \<Rightarrow> (bool \<times> WorkItem \<times> WorkQueue) blocking" where
  "dequeue_pass item q =
     (if shutdown_requested q then Returns (False, item, q)
      else case select_oldest ''pending'' (db q) of
             Some r \<Rightarrow> Returns (True, item_of_row r, snd (markProcessing (row_id r) q))
           | None \<Rightarrow> Waits)"

text \<open>\<^verbatim>\<open>WorkQueue::markCompleted\<close> (lines 277-301).\<close>

definition markCompleted :: "int \<Rightarrow> int \<Rightarrow> WorkQueue \<Rightarrow> bool \<times> WorkQueue" where
  "markCompleted now item_id' q =
     (True, q\<lparr>db := map (\<lambda>r. if row_id r = item_id'
                              then r\<lparr>status := ''completed'', bella_end_time := now\<rparr> else r) (db q)\<rparr>)"

text \<open>
  \<^verbatim>\<open>WorkQueue::markFailed\<close> (lines 303-346). The \<^verbatim>\<open>SELECT retry_count ... WHERE id = ?\<close>
  steps to the first row with that id; \<^verbatim>\<open>rc != SQLITE_ROW\<close> is the case of no such row.
  Only the retry branch notifies (\<^verbatim>\<open>queue_condition.notify_one()\<close>, line 342).
\<close>

definition markFailed :: "int \<Rightarrow> int \<Rightarrow> WorkQueue \<Rightarrow> bool \<times> WorkQueue" where
  "markFailed item_id' max_retries q =
     (case filter (\<lambda>r. row_id r = item_id') (db q) of
        [] \<Rightarrow> (False, q)
      | r # _ \<Rightarrow>
          (let current_retries = sqlite3_column_int (retry_count r)
           in if current_retries \<ge> max_retries
              then (True, q\<lparr>db := filter (\<lambda>r. row_id r \<noteq> item_id') (db q)\<rparr>)
              else (True, q\<lparr>db := map (\<lambda>r. if row_id r = item_id'
                                              then r\<lparr>retry_count := current_retries + 1,
                                                     status := ''pending''\<rparr>
                                              else r) (db q),
                            queue_condition := queue_condition q @ [notify_one]\<rparr>)))"

text \<open>\<^verbatim>\<open>WorkQueue::markBellaStarted\<close> (lines 348-372).\<close>

definition markBellaStarted :: "int \<Rightarrow> int \<Rightarrow> WorkQueue \<Rightarrow> bool \<times> WorkQueue" where
  "markBellaStarted now item_id' q =
     (True, q\<lparr>db := map (\<lambda>r. if row_id r = item_id' then r\<lparr>bella_start_time := now\<rparr> else r) (db q)\<rparr>)"

text \<open>
  \<^verbatim>\<open>WorkQueue::cancelCurrentJob\<close> (lines 408-439): the oldest \<^verbatim>\<open>'processing'\<close> row, if
  there is one, sets the flag and gives its file name; otherwise the empty string.
\<close>

definition cancelCurrentJob :: "WorkQueue \<Rightarrow> string \<times> WorkQueue" where
  "cancelCurrentJob q =
     (case select_oldest ''processing'' (db q) of
        Some r \<Rightarrow> (original_filename r, q\<lparr>cancel_current_job := True\<rparr>)
      | None \<Rightarrow> ([], q))"

definition shouldCancelCurrentJob :: "WorkQueue \<Rightarrow> bool" where
  "shouldCancelCurrentJob q = cancel_current_job q"

text \<open>\<^verbatim>\<open>WorkQueue::markCurrentJobCancelled\<close> (lines 445-463).\<close>

definition markCurrentJobCancelled :: "WorkQueue \<Rightarrow> WorkQueue" where
  "markCurrentJobCancelled q =
     (let q1 = q\<lparr>cancel_current_job := False\<rparr>;
          job_id = current_job_id q1
      in if job_id > 0
         then q1\<lparr>db := filter (\<lambda>r. row_id r \<noteq> job_id) (db q1), current_job_id := 0\<rparr>
         else q1)"

definition setCurrentJobId :: "int \<Rightarrow> WorkQueue \<Rightarrow> WorkQueue" where
  "setCurrentJobId job_id q = q\<lparr>current_job_id := job_id\<rparr>"

text \<open>
  \<^verbatim>\<open>WorkQueue::requestShutdown\<close> (lines 496-499): \<^verbatim>\<open>shutdown_requested = true;
  queue_condition.notify_all();\<close>, without \<^verbatim>\<open>queue_mutex\<close>.
\<close>

definition requestShutdown :: "WorkQueue \<Rightarrow> WorkQueue" where
  "requestShutdown q =
     q\<lparr>shutdown_requested := True, queue_condition := queue_condition q @ [notify_all]\<rparr>"

text \<open>
  A queue object as the constructor leaves it (\<^verbatim>\<open>shutdown_requested{false}\<close>,
  \<^verbatim>\<open>cancel_current_job{false}\<close>, \<^verbatim>\<open>current_job_id{0}\<close>) over a database file with the given
  table.
\<close>

definition WorkQueue_new :: "row list \<Rightarrow> int \<Rightarrow> WorkQueue" where
  "WorkQueue_new rows sq =
     \<lparr>db = rows, db_seq = sq, queue_condition = [], shutdown_requested = False,
      cancel_current_job = False, current_job_id = 0\<rparr>"

subsection \<open>parseOrbit\<close>

text \<open>
  The C library and \<^verbatim>\<open>std::string\<close> functions that \<^verbatim>\<open>parseOrbit\<close> calls, in the
  C locale. An exception is a value: \<open>Inl\<close> of the exception thrown.
\<close>

datatype cpp_exception = invalid_argument | out_of_range | runtime_error

definition tolower :: "char \<Rightarrow> char" where
  "tolower c =
     (let n = (of_char c :: nat) in if 65 \<le> n \<and> n \<le> 90 then char_of (n + 32) else c)"

definition isspace :: "char \<Rightarrow> bool" where
  "isspace c = (c \<in> set [CHR '' '', CHR 0x09, CHR 0x0A, CHR 0x0B, CHR 0x0C, CHR 0x0D])"

definition isdigit :: "char \<Rightarrow> bool" where
  "isdigit c = (48 \<le> (of_char c :: nat) \<and> (of_char c :: nat) \<le> 57)"

text \<open>\<^verbatim>\<open>s.find(needle)\<close>: the first position at which \<open>needle\<close> occurs, \<open>None\<close> for npos.\<close>

primrec str_find :: "string \<Rightarrow> string \<Rightarrow> nat option" where
  "str_find needle [] = (if needle = [] then Some 0 else None)"
| "str_find needle (c # cs) =
     (if take (length needle) (c # cs) = needle then Some 0
      else map_option Suc (str_find needle cs))"

primrec first_of :: "string \<Rightarrow> string \<Rightarrow> nat option" where
  "first_of chars [] = None"
| "first_of chars (c # cs) =
     (if c \<in> set chars then Some 0 else map_option Suc (first_of chars cs))"

text \<open>\<^verbatim>\<open>s.find_first_of(chars, start)\<close>.\<close>

definition find_first_of :: "string \<Rightarrow> string \<Rightarrow> nat \<Rightarrow> nat option" where
  "find_first_of s chars start = map_option (\<lambda>k. start + k) (first_of chars (drop start s))"

text \<open>\<^verbatim>\<open>s.substr(pos, n)\<close> throws \<^verbatim>\<open>std::out_of_range\<close> when \<open>pos\<close> is beyond the end.\<close>

definition substr :: "string \<Rightarrow> nat \<Rightarrow> nat \<Rightarrow> cpp_exception + string" where
  "substr s pos n = (if pos > length s then Inl out_of_range else Inr (take n (drop pos s)))"

text \<open>
  \<^verbatim>\<open>std::stoi(str)\<close>, base 10, as \<^verbatim>\<open>strtol\<close> reads it: leading white space, an optional
  sign, then the longest run of digits; what follows the digits is ignored. No digit is
  \<^verbatim>\<open>std::invalid_argument\<close>, a value outside \<^verbatim>\<open>int\<close> is \<^verbatim>\<open>std::out_of_range\<close>.
\<close>

definition digits_value :: "string \<Rightarrow> int" where
  "digits_value ds = foldl (\<lambda>acc c. acc * 10 + (int (of_char c) - 48)) 0 ds"

definition stoi :: "string \<Rightarrow> cpp_exception + int" where
  "stoi str =
     (let s1 = dropWhile isspace str;
          neg = (case s1 of [] \<Rightarrow> False | c # _ \<Rightarrow> c = CHR ''-'');
          s2 = (case s1 of [] \<Rightarrow> [] | c # cs \<Rightarrow> if c = CHR ''-'' \<or> c = CHR ''+'' then cs else s1);
          ds = takeWhile isdigit s2
      in if ds = [] then Inl invalid_argument
         else (let v = (if neg then - digits_value ds else digits_value ds)
               in if v < - 2147483648 \<or> 2147483647 < v then Inl out_of_range else Inr v))"

text \<open>
  \<^verbatim>\<open>parseOrbit\<close> (lines 592-628). The \<^verbatim>\<open>try\<close> block encloses \<^verbatim>\<open>std::stoi\<close> only; the
  call of \<^verbatim>\<open>substr\<close> stands before it, so an exception of \<^verbatim>\<open>substr\<close> would leave the
  function.
\<close>

definition parseOrbit :: "string \<Rightarrow> cpp_exception + int" where
  "parseOrbit message_content' =
     (let content_lower = map tolower message_content'
      in case str_find ''orbit='' content_lower of
           None \<Rightarrow> Inr 0
         | Some pos \<Rightarrow>
             (let start = pos + 6
              in if start \<ge> length message_content' then Inr 0
                 else (let end_pos = (case find_first_of message_content'
                                             [CHR '' '', CHR 0x09, CHR 0x0A, CHR 0x0D] start of
                                        None \<Rightarrow> length message_content'
                                      | Some e \<Rightarrow> e)
                       in case substr message_content' start (end_pos - start) of
                            Inl ex \<Rightarrow> Inl ex
                          | Inr frames_str \<Rightarrow>
                              (case stoi frames_str of
                                 Inr frames \<Rightarrow>
                                   if frames \<le> 0 \<or> frames > 300 then Inr 0 else Inr frames
                               | Inl ex \<Rightarrow> Inr 0))))"

text \<open>
  The reading of the animation directive in the words of the specification: the values
  of the \<^verbatim>\<open>orbit=\<close> tokens of a message, in the order of their positions. A token is an
  occurrence of \<^verbatim>\<open>orbit=\<close> (letters compared without case); its value is the text that
  follows up to the next blank, tab, newline or carriage return.
\<close>

definition orbit_token_values :: "string \<Rightarrow> string list" where
  "orbit_token_values m =
     map (\<lambda>p. takeWhile (\<lambda>c. c \<notin> set [CHR '' '', CHR 0x09, CHR 0x0A, CHR 0x0D]) (drop (p + 6) m))
       (filter (\<lambda>p. take 6 (drop p (map tolower m)) = ''orbit='') [0..<length m])"

text \<open>The frame count a token value stands for: an integer from 1 to 300, or none.\<close>

definition frame_count :: "string \<Rightarrow> int option" where
  "frame_count v =
     (case stoi v of
        Inr n \<Rightarrow> if 1 \<le> n \<and> n \<le> 300 then Some n else None
      | Inl ex \<Rightarrow> None)"

text \<open>
  The directive as the specification words it: the message contains an \<^verbatim>\<open>orbit=\<close> token
  whose value parses to the integer \<open>n\<close> from 1 to 300.
\<close>

definition has_orbit_directive :: "string \<Rightarrow> int \<Rightarrow> bool" where
  "has_orbit_directive m n = (Some n \<in> set (map frame_count (orbit_token_values m)))"

subsection \<open>The world of the worker thread\<close>

text \<open>
  The worker thread runs beside the threads of the Discord client. What those threads
  and the external programs do is given to the model from outside:
  \<^item> \<open>admin\<close>: one entry for each coming point of the loop body at which the worker
    looks at the queue: its reads of the cancellation flag, and its outcome calls
    \<^verbatim>\<open>markCompleted\<close> and \<^verbatim>\<open>markFailed\<close>. \<open>True\<close> says that the \<^verbatim>\<open>/remove\<close> handler has
    run \<^verbatim>\<open>cancelCurrentJob()\<close> since the previous such point (no entry left: no further
    request);
  \<^item> \<open>faults\<close>: one entry for each coming loop iteration of the pipeline; \<open>True\<close> says that
    an external call in the body of that iteration throws a \<^verbatim>\<open>std::exception\<close>;
  \<^item> \<open>files\<close>: the job-scoped staging paths that exist in the working directory of the
    process (the images, frames and videos that the renderer and ffmpeg write are not
    tracked);
  \<^item> \<open>calls\<close>: a record of the outcome calls made on the queue, oldest first. It is
    written and never read;
  \<^item> \<open>replies\<close>: the file names that \<^verbatim>\<open>cancelCurrentJob()\<close> returned to the \<^verbatim>\<open>/remove\<close>
    handler, oldest first; the handler answers a non-empty one with
    \<^verbatim>\<open>Cancelling VoxelMax render: <name>\<close> (lines 1630-1636). It is written and never read.
\<close>

datatype queue_call = CallMarkCompleted int | CallMarkFailed int | CallMarkCurrentJobCancelled

record world =
  queue :: WorkQueue
  files :: "string set"
  admin :: "bool list"
  faults :: "bool list"
  calls :: "queue_call list"
  replies :: "string list"

text \<open>
  What the outside decides about one job: the HTTP download, \<^verbatim>\<open>unzip\<close> (its exit code,
  and whether a failing run had already created the extraction directory), the content
  of the archive, the scene builder, the renderer, ffmpeg, the output file and the
  delivery of the message.
\<close>

record job_env =
  download_success :: bool
  unzip_result :: int
  unzip_made_dir :: bool
  found_vmax_dir :: bool
  setup_throws :: bool
  scene_json_exists :: bool
  parse_throws :: bool
  model_instances :: "nat list"
  render_polls :: "nat \<Rightarrow> nat"
  ffmpeg_result :: int
  output_file_is_open :: bool
  output_file_size :: nat
  send_success :: bool
  time_now :: int

text \<open>\<^verbatim>\<open>std::to_string\<close> of an integer.\<close>

fun digits :: "nat \<Rightarrow> string" where
  "digits n = (if n < 10 then [char_of (48 + n)] else digits (n div 10) @ [char_of (48 + n mod 10)])"

declare digits.simps [simp del]

definition to_string :: "int \<Rightarrow> string" where
  "to_string i = (if i < 0 then CHR ''-'' # digits (nat (- i)) else digits (nat i))"

text \<open>The job-scoped paths of \<^verbatim>\<open>processVmaxFile\<close> (lines 649, 657, 658).\<close>

definition temp_vmax_filename :: "int \<Rightarrow> string" where
  "temp_vmax_filename item_id' = ''temp_vmax_file_job'' @ to_string item_id' @ ''.vmax.zip''"

definition work_dir :: "int \<Rightarrow> string" where
  "work_dir item_id' = ''voxel_max_workdir_job'' @ to_string item_id'"

definition temp_extract_dir :: "int \<Rightarrow> string" where
  "temp_extract_dir item_id' = ''temp_vmax_extract_job'' @ to_string item_id'"

text \<open>Lines 721-724: the file name without a final \<^verbatim>\<open>.vmax.zip\<close>.\<close>

definition base_filename :: "string \<Rightarrow> string" where
  "base_filename filename =
     (if length filename \<ge> 9 \<and> drop (length filename - 9) filename = ''.vmax.zip''
      then take (length filename - 9) filename else filename)"

text \<open>
  The \<^verbatim>\<open>/remove\<close> handler (lines 1611-1637) for a user who may cancel: it calls
  \<^verbatim>\<open>cancelCurrentJob()\<close> and answers with the file name it got.
\<close>

definition remove_command :: "world \<Rightarrow> world" where
  "remove_command w =
     (let (cancelled_filename, q1) = cancelCurrentJob (queue w)
      in w\<lparr>queue := q1, replies := replies w @ [cancelled_filename]\<rparr>)"

text \<open>
  What the handler's thread does before the worker next looks at the queue: the next
  entry of \<open>admin\<close>.
\<close>

definition admin_acts :: "world \<Rightarrow> world" where
  "admin_acts w =
     (case admin w of
        True # adm \<Rightarrow> (remove_command w)\<lparr>admin := adm\<rparr>
      | _ \<Rightarrow> w\<lparr>admin := tl (admin w)\<rparr>)"

text \<open>
  A read of the flag by the worker thread, \<^verbatim>\<open>work_queue->shouldCancelCurrentJob()\<close>,
  after whatever the handler's thread did before it.
\<close>

definition read_cancel_flag :: "world \<Rightarrow> bool \<times> world" where
  "read_cancel_flag w =
     (let w1 = admin_acts w
      in (shouldCancelCurrentJob (queue w1), w1))"

text \<open>\<^verbatim>\<open>work_queue->markCurrentJobCancelled()\<close> as the worker thread calls it.\<close>

definition acknowledge_cancel :: "world \<Rightarrow> world" where
  "acknowledge_cancel w =
     w\<lparr>queue := markCurrentJobCancelled (queue w),
       calls := calls w @ [CallMarkCurrentJobCancelled]\<rparr>"

text \<open>
  One iteration of a loop of the pipeline. Each of them starts with the same check,
  \<^verbatim>\<open>if (work_queue && work_queue->shouldCancelCurrentJob()) { ...
  work_queue->markCurrentJobCancelled(); return ""; }\<close>, and goes on with external calls.
\<close>

datatype outcome = Passed world | Cancelled world | Thrown world

definition iteration :: "world \<Rightarrow> outcome" where
  "iteration w =
     (let (cancel, w1) = read_cancel_flag w;
          w2 = w1\<lparr>faults := tl (faults w1)\<rparr>
      in if cancel then Cancelled (acknowledge_cancel w1)
         else if (case faults w1 of True # _ \<Rightarrow> True | _ \<Rightarrow> False) then Thrown w2
         else Passed w2)"

primrec iterations :: "nat \<Rightarrow> world \<Rightarrow> outcome" where
  "iterations 0 w = Passed w"
| "iterations (Suc n) w =
     (case iteration w of
        Passed w1 \<Rightarrow> iterations n w1
      | Cancelled w1 \<Rightarrow> Cancelled w1
      | Thrown w1 \<Rightarrow> Thrown w1)"

text \<open>
  The frame loop of the orbit animation (lines 1048-1075): the check before the frame,
  \<^verbatim>\<open>engine.start()\<close>, then one check for each poll of \<^verbatim>\<open>engine.rendering()\<close> that finds the
  renderer busy. \<open>frame_loop n i\<close> renders the \<open>n\<close> frames from index \<open>i\<close> on.
\<close>

primrec frame_loop :: "nat \<Rightarrow> nat \<Rightarrow> (nat \<Rightarrow> nat) \<Rightarrow> world \<Rightarrow> outcome" where
  "frame_loop 0 i polls w = Passed w"
| "frame_loop (Suc n) i polls w =
     (case iteration w of
        Passed w1 \<Rightarrow>
          (case iterations (polls i) w1 of
             Passed w2 \<Rightarrow> frame_loop n (Suc i) polls w2
           | Cancelled w2 \<Rightarrow> Cancelled w2
           | Thrown w2 \<Rightarrow> Thrown w2)
      | Cancelled w1 \<Rightarrow> Cancelled w1
      | Thrown w1 \<Rightarrow> Thrown w1)"

text \<open>
  The two statements \<^verbatim>\<open>std::filesystem::remove_all(work_dir);
  std::remove(temp_vmax_filename.c_str());\<close> that stand at lines 1098-1099, 1134-1135 and
  1144-1145.
\<close>

definition clean_up :: "int \<Rightarrow> world \<Rightarrow> world" where
  "clean_up item_id' w = w\<lparr>files := files w - {work_dir item_id'} - {temp_vmax_filename item_id'}\<rparr>"

subsection \<open>processVmaxFile\<close>

text \<open>
  The body of the \<^verbatim>\<open>try\<close> block of \<^verbatim>\<open>processVmaxFile\<close> (lines 708-1139). The result is
  \<open>Inr\<close> of the returned file name, or \<open>Inl\<close> when a \<^verbatim>\<open>std::exception\<close> leaves the block.
  The three loops over the models (lines 810, 866, 887) make one iteration for each unique
  model, one for each model read, and one for each instance.
\<close>

definition render_single :: "job_env \<Rightarrow> string \<Rightarrow> int \<Rightarrow> world \<Rightarrow> (world + string \<times> world)" where
  "render_single env filename item_id' w =
     (case iterations (render_polls env 0) w of
        Cancelled w1 \<Rightarrow> Inr ([], w1)
      | Thrown w1 \<Rightarrow> Inl w1
      | Passed w1 \<Rightarrow> Inr (base_filename filename @ ''.jpg'', clean_up item_id' w1))"

definition render_orbit :: "job_env \<Rightarrow> string \<Rightarrow> int \<Rightarrow> nat \<Rightarrow> world \<Rightarrow> (world + string \<times> world)" where
  "render_orbit env filename item_id' orbit_frames w =
     (case frame_loop orbit_frames 0 (render_polls env) w of
        Cancelled w1 \<Rightarrow> Inr ([], w1)
      | Thrown w1 \<Rightarrow> Inl w1
      | Passed w1 \<Rightarrow>
          if ffmpeg_result env = 0
          then Inr (base_filename filename @ ''_orbit.mp4'', clean_up item_id' w1)
          else Inr ([], w1))"

definition try_block :: "job_env \<Rightarrow> string \<Rightarrow> string \<Rightarrow> int \<Rightarrow> world \<Rightarrow> (world + string \<times> world)" where
  "try_block env filename message_content' item_id' w =
     (if setup_throws env then Inl w
      else if \<not> scene_json_exists env then Inr ([], w)
      else if parse_throws env then Inl w
      else case iterations (length (model_instances env) + length (model_instances env)
                              + sum_list (model_instances env)) w of
             Cancelled w1 \<Rightarrow> Inr ([], w1)
           | Thrown w1 \<Rightarrow> Inl w1
           | Passed w1 \<Rightarrow>
               (let w2 = w1\<lparr>queue := snd (markBellaStarted (time_now env) item_id' (queue w1))\<rparr>
                in case parseOrbit message_content' of
                     Inl ex \<Rightarrow> Inl w2
                   | Inr orbit_frames \<Rightarrow>
                       if orbit_frames > 0
                       then render_orbit env filename item_id' (nat orbit_frames) w2
                       else render_single env filename item_id' w2))"

text \<open>
  \<^verbatim>\<open>processVmaxFile\<close> (lines 637-1149) with a non-null \<^verbatim>\<open>work_queue\<close>, as the worker
  calls it. \<^verbatim>\<open>unzip\<close> leaves the extraction directory when it succeeds, and when it
  fails after having created it; the failure return of lines 666-670 removes the
  temporary input file only. An empty result is the source's \<^verbatim>\<open>return ""\<close>.
\<close>

definition processVmaxFile :: "job_env \<Rightarrow> string \<Rightarrow> string \<Rightarrow> int \<Rightarrow> world \<Rightarrow> string \<times> world" where
  "processVmaxFile env filename message_content' item_id' w =
     (let w1 = w\<lparr>files := insert (temp_vmax_filename item_id') (files w)\<rparr>
      in if unzip_result env \<noteq> 0
         then ([], w1\<lparr>files := (if unzip_made_dir env
                                    then insert (temp_extract_dir item_id') (files w1)
                                    else files w1) - {temp_vmax_filename item_id'}\<rparr>)
         else (let w2 = w1\<lparr>files := insert (temp_extract_dir item_id') (files w1)\<rparr>;
                   w3 = w2\<lparr>files := insert (work_dir item_id') (files w2 - {work_dir item_id'})\<rparr>;
                   w4 = w3\<lparr>files := files w3 - {temp_extract_dir item_id'}\<rparr>
               in if \<not> found_vmax_dir env
                  then ([], w4\<lparr>files := files w4 - {temp_vmax_filename item_id'} - {work_dir item_id'}\<rparr>)
                  else (case try_block env filename message_content' item_id' w4 of
                          Inr res \<Rightarrow> res
                        | Inl w5 \<Rightarrow> ([], clean_up item_id' w5))))"

subsection \<open>workerThread\<close>

text \<open>
  The body of the loop \<^verbatim>\<open>while (work_queue->dequeue(item))\<close> (lines 1159-1295) for the
  dequeued \<open>item\<close>. \<^verbatim>\<open>markFailed\<close> is called with its default \<^verbatim>\<open>max_retries = 3\<close>.
  \<^verbatim>\<open>file_data\<close> is empty when the output file could not be opened or has no bytes.
  Reading and sending the output file (lines 1222-1281) takes time in which the handler's
  thread may act, as it may during the download: \<open>admin_acts\<close> stands before each outcome
  call.
\<close>

definition deliver :: "job_env \<Rightarrow> WorkItem \<Rightarrow> world \<Rightarrow> world" where
  "deliver env item w =
     (let file_data_empty = (\<not> output_file_is_open env \<or> output_file_size env = 0);
          w1 = admin_acts w
      in if send_success env \<and> \<not> file_data_empty
         then w1\<lparr>queue := snd (markCompleted (time_now env) (item_id item) (queue w1)),
                 calls := calls w1 @ [CallMarkCompleted (item_id item)]\<rparr>
         else w1\<lparr>queue := snd (markFailed (item_id item) 3 (queue w1)),
                 calls := calls w1 @ [CallMarkFailed (item_id item)]\<rparr>)"

definition worker_body :: "job_env \<Rightarrow> WorkItem \<Rightarrow> world \<Rightarrow> world" where
  "worker_body env item w =
     (if download_success env
      then (let w1 = w\<lparr>queue := setCurrentJobId (item_id item) (queue w)\<rparr>;
                (cancel1, w2) = read_cancel_flag w1
            in if cancel1 then acknowledge_cancel w2
               else (let (output_filename, w3) =
                           processVmaxFile env (item_original_filename item)
                             (item_message_content item) (item_id item) w2;
                         (cancel2, w4) = read_cancel_flag w3
                     in if cancel2 \<or> output_filename = []
                        then (let (cancel3, w5) = read_cancel_flag w4
                              in if cancel3 then acknowledge_cancel w5 else w5)
                        else deliver env item w4))
      else (let w1 = admin_acts w
            in w1\<lparr>queue := snd (markFailed (item_id item) 3 (queue w1)),
                   calls := calls w1 @ [CallMarkFailed (item_id item)]\<rparr>))"

subsection \<open>The other threads and the blocking call dequeue\<close>

text \<open>
  What other threads do to the queue: the upload handler calls \<^verbatim>\<open>enqueue\<close>, the
  \<^verbatim>\<open>/remove\<close> handler calls \<^verbatim>\<open>cancelCurrentJob\<close>, and the main thread calls
  \<^verbatim>\<open>requestShutdown\<close> before it joins the worker (lines 1672-1673). The first two hold
  \<^verbatim>\<open>queue_mutex\<close> for the whole call (lines 189, 409); \<^verbatim>\<open>requestShutdown\<close> never takes it.
\<close>

datatype event = Enqueue WorkItem | CancelCurrentJob | RequestShutdown

primrec apply_event :: "event \<Rightarrow> WorkQueue \<Rightarrow> WorkQueue" where
  "apply_event (Enqueue item) q = snd (enqueue item q)"
| "apply_event CancelCurrentJob q = snd (cancelCurrentJob q)"
| "apply_event RequestShutdown q = requestShutdown q"

primrec needs_mutex :: "event \<Rightarrow> bool" where
  "needs_mutex (Enqueue item) = True"
| "needs_mutex CancelCurrentJob = True"
| "needs_mutex RequestShutdown = False"

definition after_events :: "event list \<Rightarrow> WorkQueue \<Rightarrow> WorkQueue" where
  "after_events es q = foldl (\<lambda>q' e. apply_event e q') q es"

text \<open>
  Where the caller of \<^verbatim>\<open>dequeue\<close> stands. \<open>Entering\<close>: it does not hold the mutex and is
  about to take it and to test \<^verbatim>\<open>!shutdown_requested\<close> (line 230), at the start of the
  call or woken from a wait. \<open>Tested\<close>: it holds the mutex, has found the flag false and is
  about to run the \<^verbatim>\<open>SELECT\<close> (line 246). \<open>Waiting\<close>: it is blocked in
  \<^verbatim>\<open>queue_condition.wait(lock)\<close> (line 266), which has released the mutex.
\<close>

datatype dequeuer = Entering | Tested | Waiting

text \<open>
  A call by another thread that takes the queue from \<open>q\<close> to \<open>q'\<close> has notified when the
  record of notifications has grown. \<open>wait_on q q'\<close> is where a caller stands that was
  waiting during such a call: woken by a notification, still waiting without one. The
  caller is the only thread that waits, as the one worker thread of this program is, so
  that a \<^verbatim>\<open>notify_one\<close> reaches it.
\<close>

definition notified :: "WorkQueue \<Rightarrow> WorkQueue \<Rightarrow> bool" where
  "notified q q' = (queue_condition q' \<noteq> queue_condition q)"

definition wait_on :: "WorkQueue \<Rightarrow> WorkQueue \<Rightarrow> dequeuer" where
  "wait_on q q' = (if notified q q' then Entering else Waiting)"

text \<open>
  A schedule for one call of \<^verbatim>\<open>dequeue\<close> says who runs next. \<open>Caller\<close>: the calling thread
  takes its next step. \<open>Thread e\<close>: another thread calls \<open>e\<close>. \<open>Spurious\<close>: a spurious
  wake-up, which \<^verbatim>\<open>std::condition_variable::wait\<close> is allowed to make.

  \<open>dequeue_run\<close> follows the call along a schedule. A caller that waits cannot step. A
  thread whose call needs the mutex cannot run while the caller holds it (at \<open>Tested\<close>):
  it blocks, its slot passes without effect, and its call is made at a later slot if the
  schedule has one. \<^verbatim>\<open>requestShutdown\<close> needs no mutex and runs at any point; between
  the caller's test and its wait it finds nobody waiting. The run ends
  when the call returns, \<open>Returned ok item q\<close> with the result, the item and the queue at
  that moment; \<open>Inside pc q\<close> is a call that has not returned when the schedule ends.
\<close>

datatype slot = Caller | Thread event | Spurious

datatype run = Returned bool WorkItem WorkQueue | Inside dequeuer WorkQueue

fun dequeue_run :: "slot list \<Rightarrow> dequeuer \<Rightarrow> WorkItem \<Rightarrow> WorkQueue \<Rightarrow> run" where
  "dequeue_run [] pc item q = Inside pc q"
| "dequeue_run (Caller # ss) Entering item q =
     (if shutdown_requested q then Returned False item q
      else dequeue_run ss Tested item q)"
| "dequeue_run (Caller # ss) Tested item q =
     (case select_oldest ''pending'' (db q) of
        Some r \<Rightarrow> Returned True (item_of_row r) (snd (markProcessing (row_id r) q))
      | None \<Rightarrow> dequeue_run ss Waiting item q)"
| "dequeue_run (Caller # ss) Waiting item q = dequeue_run ss Waiting item q"
| "dequeue_run (Thread e # ss) Entering item q = dequeue_run ss Entering item (apply_event e q)"
| "dequeue_run (Thread e # ss) Tested item q =
     (if needs_mutex e then dequeue_run ss Tested item q
      else dequeue_run ss Tested item (apply_event e q))"
| "dequeue_run (Thread e # ss) Waiting item q =
     dequeue_run ss (wait_on q (apply_event e q)) item (apply_event e q)"
| "dequeue_run (Spurious # ss) Entering item q = dequeue_run ss Entering item q"
| "dequeue_run (Spurious # ss) Tested item q = dequeue_run ss Tested item q"
| "dequeue_run (Spurious # ss) Waiting item q = dequeue_run ss Entering item q"

text \<open>
  The schedules in which no other thread acts between the caller's test and its wait:
  the caller passes its loop, and each event falls into a wait of the caller, which then
  takes two steps, a pass of the loop if the event woke it. \<open>dequeue es item q\<close> is the
  call \<^verbatim>\<open>dequeue(item)\<close> under such a schedule; with no event left and nothing to return
  the caller is still inside.
\<close>

definition undisturbed :: "event list \<Rightarrow> slot list" where
  "undisturbed es = Caller # Caller # concat (map (\<lambda>e. [Thread e, Caller, Caller]) es)"

definition dequeue :: "event list \<Rightarrow> WorkItem \<Rightarrow> WorkQueue \<Rightarrow> (bool \<times> WorkItem \<times> WorkQueue) blocking" where
  "dequeue es item q =
     (case dequeue_run (undisturbed es) Entering item q of
        Returned ok item1 q1 \<Rightarrow> Returns (ok, item1, q1)
      | Inside pc q1 \<Rightarrow> Waits)"

subsection \<open>The worker thread under a schedule\<close>

text \<open>
  \<^verbatim>\<open>workerThread\<close> (lines 1154-1299) under a schedule. \<open>Other e\<close>: another thread acts
  while the worker is between two jobs or waits in \<^verbatim>\<open>dequeue\<close>. \<open>Work env adm flt\<close>: the
  worker thread runs. It is at its call of \<^verbatim>\<open>dequeue\<close>, entering it or woken up in it,
  and passes the loop of \<^verbatim>\<open>dequeue\<close>. With nothing to return it goes on waiting. With a
  job it runs the loop body, where \<open>env\<close> is the outside of that job, \<open>adm\<close> the
  cancellation requests and \<open>flt\<close> the faults that meet it. A \<^verbatim>\<open>dequeue\<close> that returns
  false ends the loop.
\<close>

definition other_thread :: "event \<Rightarrow> world \<Rightarrow> world" where
  "other_thread e w =
     (case e of
        CancelCurrentJob \<Rightarrow> remove_command w
      | _ \<Rightarrow> w\<lparr>queue := apply_event e (queue w)\<rparr>)"

datatype sched = Other event | Work job_env "bool list" "bool list"

datatype worker_state = Running | Exited

fun workerThread :: "sched list \<Rightarrow> worker_state \<Rightarrow> WorkItem \<Rightarrow> world \<Rightarrow> world" where
  "workerThread [] ws item w = w"
| "workerThread (Other e # ss) ws item w = workerThread ss ws item (other_thread e w)"
| "workerThread (Work env adm flt # ss) Exited item w = workerThread ss Exited item w"
| "workerThread (Work env adm flt # ss) Running item w =
     (case dequeue [] item (queue w) of
        Waits \<Rightarrow> workerThread ss Running item w
      | Returns (False, item1, q1) \<Rightarrow> workerThread ss Exited item1 (w\<lparr>queue := q1\<rparr>)
      | Returns (True, item1, q1) \<Rightarrow>
          workerThread ss Running item1
            (worker_body env item1 (w\<lparr>queue := q1, admin := adm, faults := flt\<rparr>)))"

subsection \<open>Scenarios and the vocabulary of the specification\<close>

text \<open>The job with id \<open>i\<close> fails \<open>n\<close> times in a row: \<open>n\<close> calls of \<^verbatim>\<open>markFailed\<close>.\<close>

primrec markFailed_times :: "nat \<Rightarrow> int \<Rightarrow> int \<Rightarrow> WorkQueue \<Rightarrow> WorkQueue" where
  "markFailed_times 0 i max_retries q = q"
| "markFailed_times (Suc n) i max_retries q =
     snd (markFailed i max_retries (markFailed_times n i max_retries q))"

text \<open>
  A job for which everything outside goes well: the download succeeds, the archive holds
  a \<^verbatim>\<open>.vmax\<close> directory with a \<^verbatim>\<open>scene.json\<close> and one model with one instance, nothing
  throws, each render is found busy once, ffmpeg succeeds, the output file has a byte and
  the message is delivered.
\<close>

definition healthy_env :: job_env where
  "healthy_env =
     \<lparr>download_success = True, unzip_result = 0, unzip_made_dir = False,
      found_vmax_dir = True, setup_throws = False,
      scene_json_exists = True, parse_throws = False, model_instances = [1],
      render_polls = (\<lambda>i. 1), ffmpeg_result = 0, output_file_is_open = True,
      output_file_size = 1, send_success = True, time_now = 1000\<rparr>"

text \<open>
  The process after startup: the queue object initialized at time \<open>now\<close> over an empty
  database file, no staging path, and the worker thread about to start.
\<close>

definition started :: "int \<Rightarrow> world" where
  "started now =
     \<lparr>queue = snd (initialize now (WorkQueue_new [] 0)), files = {}, admin = [], faults = [],
      calls = [], replies = []\<rparr>"

text \<open>An upload of the file \<open>name\<close> with message \<open>msg\<close> at time \<open>t\<close>.\<close>

definition upload :: "string \<Rightarrow> string \<Rightarrow> int \<Rightarrow> WorkItem" where
  "upload name msg t =
     WorkItem_new\<lparr>item_attachment_url := ''https://cdn.example/'' @ name,
                  item_original_filename := name, item_message_content := msg,
                  item_created_at := t\<rparr>"

text \<open>Two uploads, \<^verbatim>\<open>a.vmax.zip\<close> at time 10 and \<^verbatim>\<open>b.vmax.zip\<close> at time 20.\<close>

definition two_uploads :: "sched list" where
  "two_uploads = [Other (Enqueue (upload ''a.vmax.zip'' [] 10)),
                  Other (Enqueue (upload ''b.vmax.zip'' [] 20))]"

text \<open>The number of rows in \<^verbatim>\<open>'processing'\<close>.\<close>

definition processing_count :: "WorkQueue \<Rightarrow> nat" where
  "processing_count q = length (filter (\<lambda>r. status r = ''processing'') (db q))"

text \<open>A sequence of uploads: the items are enqueued one after the other.\<close>

definition enqueue_all :: "WorkItem list \<Rightarrow> WorkQueue \<Rightarrow> WorkQueue" where
  "enqueue_all items q = foldl (\<lambda>q' item. snd (enqueue item q')) q items"

text \<open>
  The worker serves \<open>n\<close> jobs without failure: each is dequeued and then marked
  completed. The result is the list of the dequeued items in the order of their dequeue.
\<close>

primrec serve :: "nat \<Rightarrow> int \<Rightarrow> WorkItem \<Rightarrow> WorkQueue \<Rightarrow> WorkItem list" where
  "serve 0 now item q = []"
| "serve (Suc n) now item q =
     (case dequeue [] item q of
        Returns (True, item1, q1) \<Rightarrow>
          item1 # serve n now item1 (snd (markCompleted now (item_id item1) q1))
      | Returns (False, item1, q1) \<Rightarrow> []
      | Waits \<Rightarrow> [])"

text \<open>
  Some concrete stores. \<open>job_row i t n st e\<close> is the row of a job with id \<open>i\<close>, creation
  time \<open>t\<close>, retry count \<open>n\<close>, status \<open>st\<close> and end time \<open>e\<close>. \<open>one_job\<close> is the queue
  after one upload into an empty database, and \<open>one_job_claimed\<close> the same queue when the
  worker has dequeued the job and set it as current job. \<open>restart_table\<close> is a table found
  at a restart: an old completed row, a row left in \<^verbatim>\<open>'processing'\<close>, a pending row and a
  recent completed row. In \<open>late_upload\<close> the job created at time 20 was uploaded before
  the job created at time 10, the worker has dequeued the older one, and a third job
  arrives.
\<close>

definition one_job :: WorkQueue where
  "one_job = snd (enqueue WorkItem_new (WorkQueue_new [] 0))"

definition job_row :: "int \<Rightarrow> int \<Rightarrow> int \<Rightarrow> string \<Rightarrow> int \<Rightarrow> row" where
  "job_row i t n st e =
     \<lparr>row_id = i, attachment_url = [], original_filename = [], channel_id = 0, user_id = 0,
      created_at = t, retry_count = n, status = st, bella_start_time = 0, bella_end_time = e,
      username = [], message_content = []\<rparr>"

definition one_job_claimed :: WorkQueue where
  "one_job_claimed = setCurrentJobId 1 (snd (markProcessing 1 one_job))"

definition restart_table :: WorkQueue where
  "restart_table =
     WorkQueue_new [job_row 1 5 0 ''completed'' 7, job_row 2 99990 0 ''processing'' 0,
                    job_row 3 99995 1 ''pending'' 0, job_row 4 50000 0 ''completed'' 60000] 4"

definition late_upload :: WorkQueue where
  "late_upload =
     snd (enqueue (WorkItem_new\<lparr>item_created_at := 30\<rparr>)
       (snd (markProcessing 2
         (enqueue_all [WorkItem_new\<lparr>item_created_at := 20\<rparr>,
                       WorkItem_new\<lparr>item_created_at := 10\<rparr>] (WorkQueue_new [] 0)))))"

text \<open>The row of job \<open>i\<close> after its \<open>k\<close>-th retry; other rows as they are.\<close>

definition retried :: "int \<Rightarrow> nat \<Rightarrow> row \<Rightarrow> row" where
  "retried i k r =
     (if row_id r = i \<and> 0 < k then r\<lparr>retry_count := int k, status := ''pending''\<rparr> else r)"

text \<open>The pending rows of the table, in rowid order.\<close>

definition pending_rows :: "WorkQueue \<Rightarrow> row list" where
  "pending_rows q = filter (\<lambda>r. status r = ''pending'') (db q)"

text \<open>
  A queue on which a dequeuer has to wait: no shutdown is signalled and no job is pending.
\<close>

definition must_wait :: "WorkQueue \<Rightarrow> bool" where
  "must_wait q = (\<not> shutdown_requested q \<and> \<not> (\<exists>r\<in>set (db q). status r = ''pending''))"

text \<open>
  The claim of a job: \<open>claimed q item q'\<close> says that \<open>item\<close> is a copy of a pending row of
  \<open>q\<close> that no pending row precedes in creation time, and that \<open>q'\<close> is \<open>q\<close> with the
  status of that row flipped by \<^verbatim>\<open>markProcessing\<close>.
\<close>

definition claimed :: "WorkQueue \<Rightarrow> WorkItem \<Rightarrow> WorkQueue \<Rightarrow> bool" where
  "claimed q item q' =
     (\<exists>r\<in>set (db q). status r = ''pending''
        \<and> \<not> (\<exists>r'\<in>set (db q). status r' = ''pending'' \<and> created_at r' < created_at r)
        \<and> item = item_of_row r
        \<and> q' = snd (markProcessing (row_id r) q))"

text \<open>
  A completed row older than the retention window of 24 hours, and an orphaned row: one
  in \<^verbatim>\<open>'processing'\<close> whose end time is 0.
\<close>

definition expired :: "int \<Rightarrow> row \<Rightarrow> bool" where
  "expired now r = (status r = ''completed'' \<and> bella_end_time r < now - 24 * 60 * 60)"

definition orphaned :: "row \<Rightarrow> bool" where
  "orphaned r = (status r = ''processing'' \<and> bella_end_time r = 0)"

section \<open>Properties\<close>

subsection \<open>Failing a job that has no row\<close>

text \<open>
  C10. If \<open>markFailed\<close> is called with an id that has no row in the store, it returns
  false and leaves the queue, and with it the whole table, unchanged.
\<close>

theorem markFailed_absent_row:
  assumes "\<forall>r \<in> set (db q). row_id r \<noteq> i"
  shows "markFailed i max_retries q = (False, q)"
proof -
  have "filter (\<lambda>r. row_id r = i) (db q) = []"
    using assms by (simp add: filter_empty_conv)
  then show ?thesis
    by (simp add: markFailed_def)
qed

theorem markFailed_absent_row_witness:
  "map row_id (db (snd (enqueue WorkItem_new (WorkQueue_new [] 0)))) = [1]
   \<and> markFailed 2 3 (snd (enqueue WorkItem_new (WorkQueue_new [] 0)))
       = (False, snd (enqueue WorkItem_new (WorkQueue_new [] 0)))"
proof -
  let ?q = "snd (enqueue WorkItem_new (WorkQueue_new [] 0))"
  have ids: "map row_id (db ?q) = [1]" by code_simp
  have "\<forall>r \<in> set (db ?q). row_id r \<noteq> 2" by code_simp
  then have "markFailed 2 3 ?q = (False, ?q)" by (rule markFailed_absent_row)
  with ids show ?thesis by (intro conjI)
qed

subsection \<open>The retry bound\<close>

lemma sqlite3_column_int_small:
  "- 2147483648 \<le> v \<Longrightarrow> v \<le> 2147483647 \<Longrightarrow> sqlite3_column_int v = v"
  by (simp add: sqlite3_column_int_def signed_take_bit_int_eq_self)

lemma markFailed_found_retry:
  assumes "filter (\<lambda>r. row_id r = i) (db q) = r # rs"
    and "sqlite3_column_int (retry_count r) < M"
  shows "markFailed i M q =
     (True, q\<lparr>db := map (\<lambda>x. if row_id x = i
                then x\<lparr>retry_count := sqlite3_column_int (retry_count r) + 1, status := ''pending''\<rparr>
                else x) (db q),
              queue_condition := queue_condition q @ [notify_one]\<rparr>)"
  using assms by (simp add: markFailed_def Let_def)

lemma markFailed_found_delete:
  assumes "filter (\<lambda>r. row_id r = i) (db q) = r # rs"
    and "M \<le> sqlite3_column_int (retry_count r)"
  shows "markFailed i M q = (True, q\<lparr>db := filter (\<lambda>x. row_id x \<noteq> i) (db q)\<rparr>)"
  using assms by (simp add: markFailed_def Let_def)

lemma filter_hd_props:
  assumes "filter P xs = r # rs"
  shows "r \<in> set xs \<and> P r"
proof -
  have "r \<in> set (filter P xs)" using assms by simp
  then show ?thesis by simp
qed

lemma first_with_id:
  assumes "\<exists>r\<in>set rows. row_id r = i"
  obtains r rs where "filter (\<lambda>r. row_id r = i) rows = r # rs"
proof -
  have "filter (\<lambda>r. row_id r = i) rows \<noteq> []"
    using assms by (auto simp: filter_empty_conv)
  then show ?thesis using that by (cases "filter (\<lambda>r. row_id r = i) rows") auto
qed

lemma markFailed_times_db:
  assumes ex: "\<exists>r\<in>set (db q). row_id r = i"
    and fresh: "\<forall>r\<in>set (db q). row_id r = i \<longrightarrow> retry_count r = 0"
    and m: "m \<le> 2147483647"
    and k: "k \<le> m"
  shows "db (markFailed_times k i (int m) q) = map (retried i k) (db q)"
  using k
proof (induction k)
  case 0
  show ?case by (simp add: retried_def)
next
  case (Suc k)
  let ?q = "markFailed_times k i (int m) q"
  have dbk: "db ?q = map (retried i k) (db q)" using Suc by simp
  obtain r0 where r0: "r0 \<in> set (db q)" "row_id r0 = i" using ex by blast
  have "retried i k r0 \<in> set (db ?q)" using r0 dbk by simp
  moreover have "row_id (retried i k r0) = i" using r0 by (simp add: retried_def)
  ultimately have "\<exists>r\<in>set (db ?q). row_id r = i" by blast
  then obtain r rs where f: "filter (\<lambda>r. row_id r = i) (db ?q) = r # rs"
    by (rule first_with_id)
  from filter_hd_props[OF f] have rin: "r \<in> set (db ?q)" and rid: "row_id r = i" by auto
  from rin dbk obtain r' where r': "r' \<in> set (db q)" "r = retried i k r'" by auto
  have "row_id r' = i" using rid r' by (simp add: retried_def split: if_splits)
  then have rc: "retry_count r = int k" using r' fresh by (auto simp: retried_def)
  have rd: "sqlite3_column_int (retry_count r) = int k"
    using rc Suc.prems m by (simp add: sqlite3_column_int_small)
  have lt: "sqlite3_column_int (retry_count r) < int m" using rd Suc.prems by simp
  have "db (markFailed_times (Suc k) i (int m) q) =
      map (\<lambda>x. if row_id x = i then x\<lparr>retry_count := int k + 1, status := ''pending''\<rparr> else x) (db ?q)"
    using markFailed_found_retry[OF f lt] rd by simp
  also have "\<dots> = map (retried i (Suc k)) (db q)"
    unfolding dbk by (simp add: retried_def fun_eq_iff comp_def add.commute)
  finally show ?case .
qed

lemma filter_other_retried:
  "filter (\<lambda>x. row_id x \<noteq> i) (map (retried i k) xs) = filter (\<lambda>x. row_id x \<noteq> i) xs"
  by (induction xs) (auto simp: retried_def)

lemma markFailed_times_last:
  assumes ex: "\<exists>r\<in>set (db q). row_id r = i"
    and fresh: "\<forall>r\<in>set (db q). row_id r = i \<longrightarrow> retry_count r = 0"
    and m: "m \<le> 2147483647"
  shows "db (markFailed_times (Suc m) i (int m) q) = filter (\<lambda>x. row_id x \<noteq> i) (db q)"
proof -
  let ?q = "markFailed_times m i (int m) q"
  have dbm: "db ?q = map (retried i m) (db q)"
    using markFailed_times_db[OF ex fresh m order_refl] .
  obtain r0 where r0: "r0 \<in> set (db q)" "row_id r0 = i" using ex by blast
  have "retried i m r0 \<in> set (db ?q)" using r0 dbm by simp
  moreover have "row_id (retried i m r0) = i" using r0 by (simp add: retried_def)
  ultimately have "\<exists>r\<in>set (db ?q). row_id r = i" by blast
  then obtain r rs where f: "filter (\<lambda>r. row_id r = i) (db ?q) = r # rs"
    by (rule first_with_id)
  from filter_hd_props[OF f] have rin: "r \<in> set (db ?q)" and rid: "row_id r = i" by auto
  from rin dbm obtain r' where r': "r' \<in> set (db q)" "r = retried i m r'" by auto
  have "row_id r' = i" using rid r' by (simp add: retried_def split: if_splits)
  then have rc: "retry_count r = int m" using r' fresh by (auto simp: retried_def)
  have rd: "sqlite3_column_int (retry_count r) = int m"
    using rc m by (simp add: sqlite3_column_int_small)
  have "db (markFailed_times (Suc m) i (int m) q) = filter (\<lambda>x. row_id x \<noteq> i) (db ?q)"
    using markFailed_found_delete[OF f, of "int m"] rd by simp
  also have "\<dots> = filter (\<lambda>x. row_id x \<noteq> i) (db q)"
    unfolding dbm by (rule filter_other_retried)
  finally show ?thesis .
qed

lemma pending_not_waits:
  assumes "\<not> shutdown_requested q" and "r \<in> set (db q)" and "status r = ''pending''"
  shows "dequeue_pass item q \<noteq> Waits"
proof -
  have "r \<in> set (sort_key created_at (filter (\<lambda>r. status r = ''pending'') (db q)))"
    using assms by simp
  then have "sort_key created_at (filter (\<lambda>r. status r = ''pending'') (db q)) \<noteq> []"
    by (metis empty_iff list.set(1))
  then have "select_oldest ''pending'' (db q) \<noteq> None"
    by (auto simp: select_oldest_def split: list.splits)
  then show ?thesis using assms(1)
    by (auto simp: dequeue_pass_def split: option.splits)
qed


lemma retried_props:
  "row_id (retried i k r) = row_id r"
  "0 < k \<Longrightarrow> row_id r = i \<Longrightarrow> status (retried i k r) = ''pending''"
  "0 < k \<Longrightarrow> row_id r = i \<Longrightarrow> retry_count (retried i k r) = int k"
  by (simp_all add: retried_def)

lemma markFailed_times_present:
  assumes ex: "\<exists>r\<in>set (db q). row_id r = i"
    and fresh: "\<forall>r\<in>set (db q). row_id r = i \<longrightarrow> retry_count r = 0"
    and m: "m \<le> 2147483647"
    and k: "0 < k" "k \<le> m"
  shows "(\<exists>r\<in>set (db (markFailed_times k i (int m) q)). row_id r = i)
       \<and> (\<forall>r\<in>set (db (markFailed_times k i (int m) q)).
                row_id r = i \<longrightarrow> status r = ''pending'' \<and> retry_count r = int k)"
proof
  have dbk: "db (markFailed_times k i (int m) q) = map (retried i k) (db q)"
    using markFailed_times_db[OF ex fresh m k(2)] .
  obtain r0 where r0: "r0 \<in> set (db q)" "row_id r0 = i" using ex by blast
  have "retried i k r0 \<in> set (db (markFailed_times k i (int m) q))" using r0 dbk by simp
  moreover have "row_id (retried i k r0) = i" using r0 by (simp add: retried_def)
  ultimately show "\<exists>r\<in>set (db (markFailed_times k i (int m) q)). row_id r = i" by blast
  show "\<forall>r\<in>set (db (markFailed_times k i (int m) q)).
          row_id r = i \<longrightarrow> status r = ''pending'' \<and> retry_count r = int k"
  proof (intro ballI impI)
    fix r assume "r \<in> set (db (markFailed_times k i (int m) q))" and rid: "row_id r = i"
    then obtain r' where r': "r' \<in> set (db q)" "r = retried i k r'" unfolding dbk by auto
    have "row_id r' = i" using rid r'(2) by (simp add: retried_props(1))
    then show "status r = ''pending'' \<and> retry_count r = int k"
      using k(1) r'(2) by (simp add: retried_props)
  qed
qed

lemma markFailed_delete_silent:
  assumes f: "filter (\<lambda>x. row_id x = i) (db q0) = r # rs"
    and ge: "M \<le> sqlite3_column_int (retry_count r)"
  shows "wait_on q0 (snd (markFailed i M q0)) = Waiting"
  by (simp add: markFailed_found_delete[OF f ge] wait_on_def notified_def)

lemma markFailed_retry_notifies:
  assumes f: "filter (\<lambda>x. row_id x = i) (db q0) = r # rs"
    and lt: "sqlite3_column_int (retry_count r) < M"
  shows "wait_on q0 (snd (markFailed i M q0)) = Entering"
  by (simp add: markFailed_found_retry[OF f lt] wait_on_def notified_def)

lemma markFailed_retry_wakes:
  assumes f: "filter (\<lambda>x. row_id x = i) (db q0) = r # rs"
    and lt: "sqlite3_column_int (retry_count r) < M"
    and ns: "\<not> shutdown_requested q0"
  shows "\<exists>it q'. dequeue_run [Caller, Caller] (wait_on q0 (snd (markFailed i M q0))) item
                    (snd (markFailed i M q0)) = Returned True it q'"
proof -
  let ?r1 = "r\<lparr>retry_count := sqlite3_column_int (retry_count r) + 1, status := ''pending''\<rparr>"
  let ?f = "\<lambda>x. if row_id x = i then x\<lparr>retry_count := sqlite3_column_int (retry_count r) + 1,
                        status := ''pending''\<rparr> else x"
  let ?q1 = "snd (markFailed i M q0)"
  from filter_hd_props[OF f] have rin: "r \<in> set (db q0)" and rid: "row_id r = i" by auto
  have q1: "?q1 = q0\<lparr>db := map ?f (db q0), queue_condition := queue_condition q0 @ [notify_one]\<rparr>"
    by (simp add: markFailed_found_retry[OF f lt])
  have "?f r \<in> ?f ` set (db q0)" using rin by (rule imageI)
  then have "?f r \<in> set (map ?f (db q0))" by (simp only: set_map)
  then have in1: "?r1 \<in> set (db ?q1)" using rid by (simp add: q1)
  have st1: "status ?r1 = ''pending''" by simp
  have ns1: "\<not> shutdown_requested ?q1" using ns by (simp add: q1)
  have "dequeue_pass item ?q1 \<noteq> Waits" using ns1 in1 st1 by (rule pending_not_waits)
  then obtain x where x: "select_oldest ''pending'' (db ?q1) = Some x"
    using ns1 by (auto simp: dequeue_pass_def split: option.splits)
  have w: "wait_on q0 ?q1 = Entering" using f lt by (rule markFailed_retry_notifies)
  have "dequeue_run [Caller, Caller] Entering item ?q1
          = Returned True (item_of_row x) (snd (markProcessing (row_id x) ?q1))"
    using ns1 x by simp
  then show ?thesis unfolding w by blast
qed

lemma markFailed_call:
  assumes f: "filter (\<lambda>x. row_id x = i) (db q0) = r # rs"
  shows "(M \<le> sqlite3_column_int (retry_count r) \<longrightarrow>
               markFailed i M q0 = (True, q0\<lparr>db := filter (\<lambda>x. row_id x \<noteq> i) (db q0)\<rparr>)
             \<and> wait_on q0 (snd (markFailed i M q0)) = Waiting)
          \<and> (sqlite3_column_int (retry_count r) < M \<longrightarrow>
               markFailed i M q0 =
                 (True, q0\<lparr>db := map (\<lambda>x. if row_id x = i
                          then x\<lparr>retry_count := sqlite3_column_int (retry_count r) + 1,
                                 status := ''pending''\<rparr>
                          else x) (db q0),
                        queue_condition := queue_condition q0 @ [notify_one]\<rparr>)
             \<and> wait_on q0 (snd (markFailed i M q0)) = Entering
             \<and> (\<not> shutdown_requested q0 \<longrightarrow>
                  (\<exists>it q'. dequeue_run [Caller, Caller] (wait_on q0 (snd (markFailed i M q0))) item
                              (snd (markFailed i M q0)) = Returned True it q')))"
    (is "(?ge \<longrightarrow> ?deleted \<and> ?silent) \<and> (?lt \<longrightarrow> ?retried \<and> ?notified \<and> (?ns \<longrightarrow> ?finds))")
proof -
  have a: "?ge \<longrightarrow> ?deleted \<and> ?silent"
  proof
    assume ge: ?ge
    have 1: ?deleted using f ge by (rule markFailed_found_delete)
    have 2: ?silent using f ge by (rule markFailed_delete_silent)
    from 1 2 show "?deleted \<and> ?silent" by (rule conjI)
  qed
  have b: "?lt \<longrightarrow> ?retried \<and> ?notified \<and> (?ns \<longrightarrow> ?finds)"
  proof
    assume lt: ?lt
    have 1: ?retried using f lt by (rule markFailed_found_retry)
    have 2: ?notified using f lt by (rule markFailed_retry_notifies)
    have 3: "?ns \<longrightarrow> ?finds" using markFailed_retry_wakes[OF f lt] by (rule impI)
    from 1 2 3 show "?retried \<and> ?notified \<and> (?ns \<longrightarrow> ?finds)" by (intro conjI)
  qed
  from a b show ?thesis by (rule conjI)
qed

text \<open>
  C1, as the code has it. A fresh job (retry count 0) that fails \<open>m + 1\<close> times under
  \<open>max_retries = m\<close> is deleted from the store. After \<open>k\<close> failures, for every \<open>k\<close> from 1
  to \<open>m\<close>, it is still there, \<^verbatim>\<open>'pending'\<close> with retry count \<open>k\<close>: so after \<open>m - 1\<close>
  failures with retry count \<open>m - 1\<close>, and after exactly \<open>m\<close> failures with retry count \<open>m\<close>,
  not deleted. One call of \<open>markFailed\<close> reads the stored retry count of the row. When the
  count is at least \<open>max_retries\<close> it deletes the row and notifies nobody: a caller that
  waits in \<open>dequeue\<close> goes on waiting. Otherwise it stores the count plus one, sets the
  status back to \<^verbatim>\<open>'pending'\<close> and issues one \<^verbatim>\<open>notify_one\<close> on the condition variable:
  a caller that waits in \<open>dequeue\<close> is woken and, unless a shutdown is signalled, returns
  from its next pass with a job.
\<close>

theorem retry_bound:
  assumes ex: "\<exists>r\<in>set (db q). row_id r = i"
    and fresh: "\<forall>r\<in>set (db q). row_id r = i \<longrightarrow> retry_count r = 0"
    and m: "m \<le> 2147483647"
  shows "(\<forall>r\<in>set (db (markFailed_times (Suc m) i (int m) q)). row_id r \<noteq> i)
       \<and> (\<forall>k. 0 < k \<and> k \<le> m \<longrightarrow>
            (\<exists>r\<in>set (db (markFailed_times k i (int m) q)). row_id r = i)
          \<and> (\<forall>r\<in>set (db (markFailed_times k i (int m) q)).
                row_id r = i \<longrightarrow> status r = ''pending'' \<and> retry_count r = int k))
       \<and> (\<forall>q0 M r rs. filter (\<lambda>x. row_id x = i) (db q0) = r # rs \<longrightarrow>
            (M \<le> sqlite3_column_int (retry_count r) \<longrightarrow>
               markFailed i M q0 = (True, q0\<lparr>db := filter (\<lambda>x. row_id x \<noteq> i) (db q0)\<rparr>)
             \<and> wait_on q0 (snd (markFailed i M q0)) = Waiting)
          \<and> (sqlite3_column_int (retry_count r) < M \<longrightarrow>
               markFailed i M q0 =
                 (True, q0\<lparr>db := map (\<lambda>x. if row_id x = i
                          then x\<lparr>retry_count := sqlite3_column_int (retry_count r) + 1,
                                 status := ''pending''\<rparr>
                          else x) (db q0),
                        queue_condition := queue_condition q0 @ [notify_one]\<rparr>)
             \<and> wait_on q0 (snd (markFailed i M q0)) = Entering
             \<and> (\<not> shutdown_requested q0 \<longrightarrow>
                  (\<exists>it q'. dequeue_run [Caller, Caller] (wait_on q0 (snd (markFailed i M q0))) item
                              (snd (markFailed i M q0)) = Returned True it q'))))"
    (is "?gone \<and> ?kept \<and> ?step")
proof -
  have gone: ?gone
    by (simp only: markFailed_times_last[OF ex fresh m]) simp
  have kept: ?kept
    using markFailed_times_present[OF ex fresh m] by blast
  have step: ?step
    by (intro allI impI, erule markFailed_call)
  from gone kept step show ?thesis by (intro conjI)
qed

theorem retry_bound_witness:
  "db one_job = [job_row 1 0 0 ''pending'' 0]
   \<and> 1 \<notin> set (map row_id (db (markFailed_times 4 1 3 one_job)))
   \<and> (\<exists>r\<in>set (db (markFailed_times 3 1 3 one_job)). row_id r = 1)
   \<and> db (markFailed_times 3 1 3 one_job) = [job_row 1 0 3 ''pending'' 0]
   \<and> markFailed 1 3 one_job
       = (True, one_job\<lparr>db := [job_row 1 0 1 ''pending'' 0],
                        queue_condition := queue_condition one_job @ [notify_one]\<rparr>)
   \<and> wait_on one_job (snd (markFailed 1 3 one_job)) = Entering
   \<and> (\<exists>it q'. dequeue_run [Caller, Caller] (wait_on one_job (snd (markFailed 1 3 one_job)))
                  WorkItem_new (snd (markFailed 1 3 one_job)) = Returned True it q')
   \<and> markFailed 1 3 (markFailed_times 3 1 3 one_job)
       = (True, (markFailed_times 3 1 3 one_job)\<lparr>db := []\<rparr>)
   \<and> wait_on (markFailed_times 3 1 3 one_job)
        (snd (markFailed 1 3 (markFailed_times 3 1 3 one_job))) = Waiting"
proof -
  let ?r = "job_row 1 0 0 ''pending'' 0"
  let ?last = "markFailed_times 3 1 3 one_job"
  have dbq: "db one_job = [?r]" by code_simp
  have ex: "\<exists>r\<in>set (db one_job). row_id r = 1" by code_simp
  have fresh: "\<forall>r\<in>set (db one_job). row_id r = 1 \<longrightarrow> retry_count r = 0" by code_simp
  have m: "(3::nat) \<le> 2147483647" by simp
  note t = retry_bound[OF ex fresh m, where item = WorkItem_new]
  have "\<forall>r\<in>set (db (markFailed_times (Suc 3) 1 (int 3) one_job)). row_id r \<noteq> 1"
    using t by (rule conjunct1)
  then have gone: "1 \<notin> set (map row_id (db (markFailed_times 4 1 3 one_job)))"
    by (auto simp: eval_nat_numeral)
  have "(\<exists>r\<in>set (db (markFailed_times 3 1 (int 3) one_job)). row_id r = 1)"
    using t by simp
  then have kept: "\<exists>r\<in>set (db ?last). row_id r = 1" by simp
  have three: "db ?last = [job_row 1 0 3 ''pending'' 0]" by code_simp
  note step = t[THEN conjunct2, THEN conjunct2]
  have f: "filter (\<lambda>x. row_id x = 1) (db one_job) = ?r # []" by code_simp
  have lt: "sqlite3_column_int (retry_count ?r) < 3" by code_simp
  note s1 = step[THEN spec, of one_job, THEN spec, of 3, THEN spec, of ?r, THEN spec, of "[]",
                 THEN mp, OF f, THEN conjunct2, THEN mp, OF lt]
  have "map (\<lambda>x. if row_id x = 1
                then x\<lparr>retry_count := sqlite3_column_int (retry_count ?r) + 1,
                       status := ''pending''\<rparr>
                else x) (db one_job) = [job_row 1 0 1 ''pending'' 0]" by code_simp
  then have retry: "markFailed 1 3 one_job
       = (True, one_job\<lparr>db := [job_row 1 0 1 ''pending'' 0],
                        queue_condition := queue_condition one_job @ [notify_one]\<rparr>)"
    using s1[THEN conjunct1] by simp
  have woken: "wait_on one_job (snd (markFailed 1 3 one_job)) = Entering"
    using s1[THEN conjunct2] by (rule conjunct1)
  have ns: "\<not> shutdown_requested one_job" by code_simp
  have finds: "\<exists>it q'. dequeue_run [Caller, Caller] (wait_on one_job (snd (markFailed 1 3 one_job)))
                  WorkItem_new (snd (markFailed 1 3 one_job)) = Returned True it q'"
    using s1[THEN conjunct2, THEN conjunct2] ns by (rule mp)
  have f3: "filter (\<lambda>x. row_id x = 1) (db ?last) = job_row 1 0 3 ''pending'' 0 # []"
    by code_simp
  have ge: "3 \<le> sqlite3_column_int (retry_count (job_row 1 0 3 ''pending'' 0))" by code_simp
  note s2 = step[THEN spec, of ?last, THEN spec, of 3, THEN spec, of "job_row 1 0 3 ''pending'' 0",
                 THEN spec, of "[]", THEN mp, OF f3, THEN conjunct1, THEN mp, OF ge]
  have "filter (\<lambda>x. row_id x \<noteq> 1) (db ?last) = []" by code_simp
  then have del: "markFailed 1 3 ?last = (True, ?last\<lparr>db := []\<rparr>)"
    using s2[THEN conjunct1] by simp
  have silent: "wait_on ?last (snd (markFailed 1 3 ?last)) = Waiting"
    using s2 by (rule conjunct2)
  from dbq gone kept three retry woken finds del silent show ?thesis by (intro conjI)
qed

text \<open>
  C1 as stated fails: with \<open>max_retries = 3\<close>, a job on which \<open>markFailed\<close> has been called
  exactly 3 times is still in the store, \<^verbatim>\<open>'pending'\<close> with retry count 3.
\<close>

theorem retry_bound_counterexample:
  "db (markFailed_times 3 1 3 (snd (enqueue WorkItem_new (WorkQueue_new [] 0)))) =
     [\<lparr>row_id = 1, attachment_url = [], original_filename = [],
         channel_id = 0, user_id = 0, created_at = 0, retry_count = 3, status = ''pending'',
         bella_start_time = 0, bella_end_time = 0, username = [], message_content = []\<rparr>]"
  by code_simp

subsection \<open>Self-healing initialization\<close>

lemma initialize_db:
  "db (snd (initialize now q)) =
     map (\<lambda>r. if orphaned r then r\<lparr>status := ''pending''\<rparr> else r)
       (filter (\<lambda>r. \<not> expired now r) (db q))"
  by (simp add: initialize_def Let_def expired_def orphaned_def)

lemma orphaned_not_expired: "orphaned r \<Longrightarrow> \<not> expired now r"
  by (simp add: orphaned_def expired_def)

lemma reset_not_orphaned: "\<not> orphaned (r\<lparr>status := ''pending''\<rparr>)"
  by (simp add: orphaned_def)

lemma reset_not_expired: "orphaned r \<Longrightarrow> \<not> expired now (r\<lparr>status := ''pending''\<rparr>)"
  by (simp add: expired_def)

text \<open>
  C5. For every table found at startup, \<open>initialize\<close> succeeds and leaves no completed
  row older than the 24-hour window and no orphaned row; every orphaned row is in the
  table as a \<^verbatim>\<open>'pending'\<close> row; every row that is neither expired nor orphaned is in the
  table unchanged; nothing else is in the table; the ids of the table are those of the
  rows that were not expired, each as often as before and in the same order (no row is lost
  or duplicated); and nothing but the table changes.
\<close>

theorem initialize_self_healing:
  "fst (initialize now q)
   \<and> (\<forall>r\<in>set (db (snd (initialize now q))). \<not> expired now r \<and> \<not> orphaned r)
   \<and> (\<forall>r\<in>set (db q). orphaned r \<longrightarrow> r\<lparr>status := ''pending''\<rparr> \<in> set (db (snd (initialize now q))))
   \<and> (\<forall>r\<in>set (db q). \<not> expired now r \<and> \<not> orphaned r \<longrightarrow> r \<in> set (db (snd (initialize now q))))
   \<and> (\<forall>r'\<in>set (db (snd (initialize now q))).
         r' \<in> set (db q) \<or> (\<exists>r\<in>set (db q). orphaned r \<and> r' = r\<lparr>status := ''pending''\<rparr>))
   \<and> map row_id (db (snd (initialize now q))) = map row_id (filter (\<lambda>r. \<not> expired now r) (db q))
   \<and> snd (initialize now q) = q\<lparr>db := db (snd (initialize now q))\<rparr>"
  (is "?ok \<and> ?clean \<and> ?reset \<and> ?kept \<and> ?only \<and> ?ids \<and> ?frame")
proof -
  let ?heal = "\<lambda>r. if orphaned r then r\<lparr>status := ''pending''\<rparr> else r"
  have ok: ?ok by (simp add: initialize_def Let_def)
  have clean: ?clean
  proof
    fix r assume "r \<in> set (db (snd (initialize now q)))"
    then obtain r0 where r0: "r0 \<in> set (db q)" "\<not> expired now r0" "r = ?heal r0"
      unfolding initialize_db by auto
    show "\<not> expired now r \<and> \<not> orphaned r"
    proof (cases "orphaned r0")
      case True
      then show ?thesis using r0(3) reset_not_orphaned reset_not_expired by simp
    next
      case False
      then show ?thesis using r0 by simp
    qed
  qed
  have reset: ?reset
  proof (intro ballI impI)
    fix r assume r: "r \<in> set (db q)" "orphaned r"
    then have "r \<in> set (filter (\<lambda>r. \<not> expired now r) (db q))"
      using orphaned_not_expired by simp
    then have "?heal r \<in> ?heal ` set (filter (\<lambda>r. \<not> expired now r) (db q))" by (rule imageI)
    then show "r\<lparr>status := ''pending''\<rparr> \<in> set (db (snd (initialize now q)))"
      using r(2) unfolding initialize_db by (simp only: set_map if_True)
  qed
  have kept: ?kept
  proof (intro ballI impI)
    fix r assume r: "r \<in> set (db q)" "\<not> expired now r \<and> \<not> orphaned r"
    then have "r \<in> set (filter (\<lambda>r. \<not> expired now r) (db q))" by simp
    then have "?heal r \<in> ?heal ` set (filter (\<lambda>r. \<not> expired now r) (db q))" by (rule imageI)
    then show "r \<in> set (db (snd (initialize now q)))"
      using r(2) unfolding initialize_db by (simp only: set_map if_False)
  qed
  have only: ?only
  proof
    fix r' assume "r' \<in> set (db (snd (initialize now q)))"
    then obtain r0 where r0: "r0 \<in> set (db q)" "r' = ?heal r0"
      unfolding initialize_db by auto
    then show "r' \<in> set (db q) \<or> (\<exists>r\<in>set (db q). orphaned r \<and> r' = r\<lparr>status := ''pending''\<rparr>)"
      by (cases "orphaned r0") auto
  qed
  have ids: ?ids
    unfolding initialize_db by (simp add: comp_def) 
  have frame: ?frame by (simp add: initialize_def Let_def)
  from ok clean reset kept only ids frame show ?thesis by (intro conjI)
qed


theorem initialize_self_healing_witness:
  "fst (initialize 100000 restart_table)
   \<and> job_row 1 5 0 ''completed'' 7 \<notin> set (db (snd (initialize 100000 restart_table)))
   \<and> job_row 2 99990 0 ''pending'' 0 \<in> set (db (snd (initialize 100000 restart_table)))
   \<and> job_row 3 99995 1 ''pending'' 0 \<in> set (db (snd (initialize 100000 restart_table)))
   \<and> job_row 4 50000 0 ''completed'' 60000 \<in> set (db (snd (initialize 100000 restart_table)))
   \<and> map row_id (db (snd (initialize 100000 restart_table))) = [2, 3, 4]"
proof -
  note t = initialize_self_healing[of 100000 restart_table]
  note t2 = t[THEN conjunct2, THEN conjunct1]
  note t3 = t[THEN conjunct2, THEN conjunct2, THEN conjunct1]
  note t4 = t[THEN conjunct2, THEN conjunct2, THEN conjunct2, THEN conjunct1]
  note t6 = t[THEN conjunct2, THEN conjunct2, THEN conjunct2, THEN conjunct2, THEN conjunct2,
              THEN conjunct1]
  have ok: "fst (initialize 100000 restart_table)" using t by (rule conjunct1)
  have e1: "expired 100000 (job_row 1 5 0 ''completed'' 7)" by code_simp
  have "\<forall>r\<in>set (db (snd (initialize 100000 restart_table))). \<not> expired 100000 r \<and> \<not> orphaned r"
    by (rule t2)
  then have gone: "job_row 1 5 0 ''completed'' 7 \<notin> set (db (snd (initialize 100000 restart_table)))"
    using e1 by blast
  have in2: "job_row 2 99990 0 ''processing'' 0 \<in> set (db restart_table)" by code_simp
  have o2: "orphaned (job_row 2 99990 0 ''processing'' 0)" by code_simp
  have "(job_row 2 99990 0 ''processing'' 0)\<lparr>status := ''pending''\<rparr>
          \<in> set (db (snd (initialize 100000 restart_table)))"
    using t3 in2 o2 by blast
  moreover have "(job_row 2 99990 0 ''processing'' 0)\<lparr>status := ''pending''\<rparr>
          = job_row 2 99990 0 ''pending'' 0" by code_simp
  ultimately have reset: "job_row 2 99990 0 ''pending'' 0 \<in> set (db (snd (initialize 100000 restart_table)))"
    by simp
  have in3: "job_row 3 99995 1 ''pending'' 0 \<in> set (db restart_table)" by code_simp
  have n3: "\<not> expired 100000 (job_row 3 99995 1 ''pending'' 0) \<and> \<not> orphaned (job_row 3 99995 1 ''pending'' 0)"
    by code_simp
  have kept3: "job_row 3 99995 1 ''pending'' 0 \<in> set (db (snd (initialize 100000 restart_table)))"
    using t4 in3 n3 by blast
  have in4: "job_row 4 50000 0 ''completed'' 60000 \<in> set (db restart_table)" by code_simp
  have n4: "\<not> expired 100000 (job_row 4 50000 0 ''completed'' 60000)
            \<and> \<not> orphaned (job_row 4 50000 0 ''completed'' 60000)"
    by code_simp
  have kept4: "job_row 4 50000 0 ''completed'' 60000 \<in> set (db (snd (initialize 100000 restart_table)))"
    using t4 in4 n4 by blast
  have "map row_id (db (snd (initialize 100000 restart_table)))
          = map row_id (filter (\<lambda>r. \<not> expired 100000 r) (db restart_table))"
    by (rule t6)
  moreover have "map row_id (filter (\<lambda>r. \<not> expired 100000 r) (db restart_table)) = [2, 3, 4]"
    by code_simp
  ultimately have ids: "map row_id (db (snd (initialize 100000 restart_table))) = [2, 3, 4]" by simp
  from ok gone reset kept3 kept4 ids show ?thesis by (intro conjI)
qed

subsection \<open>Cancellation acknowledgement\<close>

lemma select_oldest_Some:
  assumes "r \<in> set rows" and "status r = st"
  shows "select_oldest st rows \<noteq> None"
proof -
  have "r \<in> set (sort_key created_at (filter (\<lambda>r. status r = st) rows))"
    using assms by simp
  then have "sort_key created_at (filter (\<lambda>r. status r = st) rows) \<noteq> []"
    by (metis empty_iff list.set(1))
  then show ?thesis
    by (auto simp: select_oldest_def split: list.splits)
qed

lemma markCurrentJobCancelled_twice:
  "markCurrentJobCancelled (markCurrentJobCancelled q) = markCurrentJobCancelled q"
  by (simp add: markCurrentJobCancelled_def Let_def)

lemma markCurrentJobCancelled_flag:
  "\<not> cancel_current_job (markCurrentJobCancelled q)"
  by (simp add: markCurrentJobCancelled_def Let_def)

lemma markCurrentJobCancelled_id:
  "0 \<le> current_job_id q \<Longrightarrow> current_job_id (markCurrentJobCancelled q) = 0"
  by (simp add: markCurrentJobCancelled_def Let_def)

lemma markCurrentJobCancelled_db:
  "0 < current_job_id q \<Longrightarrow>
     db (markCurrentJobCancelled q) = filter (\<lambda>r. row_id r \<noteq> current_job_id q) (db q)"
  by (simp add: markCurrentJobCancelled_def Let_def)

lemma checkpoint_of_current_job:
  assumes r: "r \<in> set (db (queue w))" "status r = ''processing''"
    and cur: "current_job_id (queue w) = row_id r" "0 < row_id r"
    and adm: "admin w = True # adm"
  shows "\<exists>w'. iteration w = Cancelled w'
           \<and> db (queue w') = filter (\<lambda>x. row_id x \<noteq> row_id r) (db (queue w))
           \<and> current_job_id (queue w') = 0
           \<and> \<not> cancel_current_job (queue w')"
proof -
  have "select_oldest ''processing'' (db (queue w)) \<noteq> None"
    using r by (rule select_oldest_Some)
  then obtain x where x: "select_oldest ''processing'' (db (queue w)) = Some x" by blast
  let ?w1 = "w\<lparr>queue := (queue w)\<lparr>cancel_current_job := True\<rparr>,
               replies := replies w @ [original_filename x], admin := adm\<rparr>"
  have rd: "read_cancel_flag w = (True, ?w1)"
    using x adm
    by (simp add: read_cancel_flag_def admin_acts_def remove_command_def cancelCurrentJob_def
          shouldCancelCurrentJob_def)
  have it: "iteration w = Cancelled (acknowledge_cancel ?w1)"
    by (simp add: iteration_def rd)
  show ?thesis
    unfolding it using cur
    by (simp add: acknowledge_cancel_def markCurrentJobCancelled_def Let_def)
qed

lemma cancelCurrentJob_sets_flag:
  assumes "r \<in> set (db q)" and "status r = ''processing''"
  shows "snd (cancelCurrentJob q) = q\<lparr>cancel_current_job := True\<rparr>"
  using select_oldest_Some[OF assms]
  by (auto simp: cancelCurrentJob_def split: option.splits)

text \<open>
  C7 at two runs of the worker thread. The acknowledgement itself does what the claim
  says: \<open>markCurrentJobCancelled\<close> clears the flag, deletes the rows of the current job
  id, sets the id to 0, and a second call changes nothing (the lemmas above). What fails
  is the step from the request to the acknowledgement: \<open>cancelCurrentJob\<close> names the
  oldest row in \<^verbatim>\<open>'processing'\<close> and sets a flag that carries no job id, and the
  acknowledgement deletes whatever job is current when the flag is next read. That is
  the named job when it is the current job at that read (\<open>checkpoint_of_current_job\<close>),
  and another job in the two runs below.

  In the first run two jobs are uploaded and the archive of the first cannot be
  unpacked, so that its row stays in \<^verbatim>\<open>'processing'\<close>. The worker takes the second job,
  and \<^verbatim>\<open>/remove\<close> arrives before the check of line 1205: the handler is told
  \<^verbatim>\<open>a.vmax.zip\<close>, the check acknowledges, and afterwards the row of \<^verbatim>\<open>a.vmax.zip\<close> is
  still there in \<^verbatim>\<open>'processing'\<close> while the row of \<^verbatim>\<open>b.vmax.zip\<close> is gone.

  In the second run both jobs are good, and \<^verbatim>\<open>/remove\<close> arrives for the first job after
  the last read of the flag for it (line 1214) and before \<open>markCompleted\<close>: the handler is
  told \<^verbatim>\<open>a.vmax.zip\<close>, the job is delivered and marked completed, the flag is still set,
  and the check of line 1205 for the second job acknowledges: the row of \<^verbatim>\<open>a.vmax.zip\<close>
  is still there, \<^verbatim>\<open>'completed'\<close>, and the row of \<^verbatim>\<open>b.vmax.zip\<close>, which nobody asked to
  cancel, is gone.
\<close>

theorem cancel_names_one_job_deletes_another:
  "replies (workerThread
              (two_uploads @ [Work (healthy_env\<lparr>unzip_result := 1\<rparr>) [] [],
                              Work healthy_env [True] []])
              Running WorkItem_new (started 500)) = [''a.vmax.zip'']
   \<and> calls (workerThread
              (two_uploads @ [Work (healthy_env\<lparr>unzip_result := 1\<rparr>) [] [],
                              Work healthy_env [True] []])
              Running WorkItem_new (started 500)) = [CallMarkCurrentJobCancelled]
   \<and> map (\<lambda>r. (original_filename r, status r))
        (db (queue (workerThread
              (two_uploads @ [Work (healthy_env\<lparr>unzip_result := 1\<rparr>) [] [],
                              Work healthy_env [True] []])
              Running WorkItem_new (started 500)))) = [(''a.vmax.zip'', ''processing'')]
   \<and> replies (workerThread
              (two_uploads @ [Work healthy_env [False, False, False, False, False, False, True] []])
              Running WorkItem_new (started 500)) = [''a.vmax.zip'']
   \<and> calls (workerThread
              (two_uploads @ [Work healthy_env [False, False, False, False, False, False, True] []])
              Running WorkItem_new (started 500)) = [CallMarkCompleted 1]
   \<and> cancel_current_job (queue (workerThread
              (two_uploads @ [Work healthy_env [False, False, False, False, False, False, True] []])
              Running WorkItem_new (started 500)))
   \<and> replies (workerThread
              (two_uploads @ [Work healthy_env [False, False, False, False, False, False, True] [],
                              Work healthy_env [] []])
              Running WorkItem_new (started 500)) = [''a.vmax.zip'']
   \<and> calls (workerThread
              (two_uploads @ [Work healthy_env [False, False, False, False, False, False, True] [],
                              Work healthy_env [] []])
              Running WorkItem_new (started 500)) = [CallMarkCompleted 1, CallMarkCurrentJobCancelled]
   \<and> map (\<lambda>r. (original_filename r, status r))
        (db (queue (workerThread
              (two_uploads @ [Work healthy_env [False, False, False, False, False, False, True] [],
                              Work healthy_env [] []])
              Running WorkItem_new (started 500)))) = [(''a.vmax.zip'', ''completed'')]"
  by code_simp

subsection \<open>The animation directive\<close>

lemma upt_Suc_shift: "[0..<Suc n] = 0 # map Suc [0..<n]"
  by (simp only: upt_conv_Cons[OF zero_less_Suc] map_Suc_upt)

lemma filter_map_Suc: "filter P (map Suc xs) = map Suc (filter (\<lambda>p. P (Suc p)) xs)"
  by (induction xs) auto

lemma str_find_first_match:
  assumes "needle \<noteq> []"
  shows "str_find needle s =
     (case filter (\<lambda>p. take (length needle) (drop p s) = needle) [0..<length s] of
        [] \<Rightarrow> None
      | p # ps \<Rightarrow> Some p)"
proof (induction s)
  case Nil
  show ?case using assms by simp
next
  case (Cons c cs)
  show ?case
  proof (cases "take (length needle) (c # cs) = needle")
    case True
    then show ?thesis by (simp add: upt_Suc_shift del: upt_Suc)
  next
    case False
    have "filter (\<lambda>p. take (length needle) (drop p (c # cs)) = needle) [0..<length (c # cs)]
        = map Suc (filter (\<lambda>p. take (length needle) (drop p cs) = needle) [0..<length cs])"
      using False by (simp add: upt_Suc_shift filter_map_Suc del: upt_Suc)
    then show ?thesis using False Cons.IH
      by (simp split: list.splits)
  qed
qed

lemma first_of_takeWhile:
  "first_of chars s =
     (if \<exists>c\<in>set s. c \<in> set chars
      then Some (length (takeWhile (\<lambda>c. c \<notin> set chars) s)) else None)"
  by (induction s) auto

lemma token_value_extracted:
  assumes "start \<le> length m"
  shows "substr m start ((case find_first_of m chars start of None \<Rightarrow> length m | Some e \<Rightarrow> e) - start)
           = Inr (takeWhile (\<lambda>c. c \<notin> set chars) (drop start m))"
proof (cases "\<exists>c\<in>set (drop start m). c \<in> set chars")
  case True
  then have "find_first_of m chars start
      = Some (start + length (takeWhile (\<lambda>c. c \<notin> set chars) (drop start m)))"
    by (simp add: find_first_of_def first_of_takeWhile)
  then show ?thesis using assms
    by (simp add: substr_def takeWhile_eq_take[symmetric])
next
  case False
  then have none: "find_first_of m chars start = None"
    by (simp add: find_first_of_def first_of_takeWhile)
  have "takeWhile (\<lambda>c. c \<notin> set chars) (drop start m) = drop start m"
    by (rule takeWhile_eq_all_conv[THEN iffD2]) (use False in blast)
  then show ?thesis
    by (simp only: none option.case) (use assms in \<open>simp add: substr_def\<close>)
qed

lemma stoi_Nil: "stoi [] = Inl invalid_argument"
  by (simp add: stoi_def)

lemma frame_count_range: "frame_count v = Some n \<Longrightarrow> 1 \<le> n \<and> n \<le> 300"
  by (auto simp: frame_count_def split: sum.splits if_splits)

lemma frames_of_stoi:
  "(case stoi v of Inr frames \<Rightarrow> if frames \<le> 0 \<or> frames > 300 then Inr 0 else Inr frames
                | Inl ex \<Rightarrow> Inr 0)
   = (Inr (case frame_count v of Some n \<Rightarrow> n | None \<Rightarrow> 0) :: cpp_exception + int)"
  by (auto simp: frame_count_def split: sum.splits)

lemma parseOrbit_tokens:
  "parseOrbit m = Inr (case orbit_token_values m of
                         [] \<Rightarrow> 0
                       | v # vs \<Rightarrow> (case frame_count v of Some n \<Rightarrow> n | None \<Rightarrow> 0))"
proof -
  let ?ws = "[CHR '' '', CHR 0x09, CHR 0x0A, CHR 0x0D]"
  let ?ps = "filter (\<lambda>p. take 6 (drop p (map tolower m)) = ''orbit='') [0..<length m]"
  have len: "length ''orbit='' = 6" by simp
  have ne: "''orbit='' \<noteq> []" by simp
  have find: "str_find ''orbit='' (map tolower m) = (case ?ps of [] \<Rightarrow> None | p # ps \<Rightarrow> Some p)"
    using str_find_first_match[OF ne, of "map tolower m"] by (simp only: len length_map)
  have vals: "orbit_token_values m = map (\<lambda>p. takeWhile (\<lambda>c. c \<notin> set ?ws) (drop (p + 6) m)) ?ps"
    by (simp add: orbit_token_values_def)
  show ?thesis
  proof (cases ?ps)
    case Nil
    then show ?thesis using find vals by (simp add: parseOrbit_def)
  next
    case (Cons p ps)
    then have f: "str_find ''orbit='' (map tolower m) = Some p" using find by simp
    have v: "orbit_token_values m = takeWhile (\<lambda>c. c \<notin> set ?ws) (drop (p + 6) m)
                # map (\<lambda>p. takeWhile (\<lambda>c. c \<notin> set ?ws) (drop (p + 6) m)) ps"
      using vals Cons by simp
    show ?thesis
    proof (cases "p + 6 \<ge> length m")
      case True
      then have "takeWhile (\<lambda>c. c \<notin> set ?ws) (drop (p + 6) m) = []" by simp
      then have "frame_count (takeWhile (\<lambda>c. c \<notin> set ?ws) (drop (p + 6) m)) = None"
        by (simp add: frame_count_def stoi_Nil)
      then show ?thesis using True f v by (simp add: parseOrbit_def)
    next
      case False
      then have le: "p + 6 \<le> length m" by simp
      have "parseOrbit m =
          (case substr m (p + 6) ((case find_first_of m ?ws (p + 6) of None \<Rightarrow> length m | Some e \<Rightarrow> e) - (p + 6)) of
             Inl ex \<Rightarrow> Inl ex
           | Inr frames_str \<Rightarrow>
               (case stoi frames_str of
                  Inr frames \<Rightarrow> if frames \<le> 0 \<or> frames > 300 then Inr 0 else Inr frames
                | Inl ex \<Rightarrow> Inr 0))"
        using False f by (simp add: parseOrbit_def Let_def)
      also have "\<dots> = Inr (case frame_count (takeWhile (\<lambda>c. c \<notin> set ?ws) (drop (p + 6) m)) of
                            Some n \<Rightarrow> n | None \<Rightarrow> 0)"
        by (simp only: token_value_extracted[OF le] sum.case frames_of_stoi)
      finally show ?thesis using v by simp
    qed
  qed
qed

text \<open>
  C9, as the code has it. \<open>parseOrbit\<close> never raises and returns a number from 0 to 300.
  It looks at the first \<^verbatim>\<open>orbit=\<close> token of the message only: it returns \<open>n\<close> from 1 to
  300 exactly when the value of the first token parses to \<open>n\<close>, and 0 when there is no
  token or the value of the first token is not a number from 1 to 300.
\<close>

theorem parseOrbit_first_directive:
  "parseOrbit m = Inr (case orbit_token_values m of
                         [] \<Rightarrow> 0
                       | v # vs \<Rightarrow> (case frame_count v of Some n \<Rightarrow> n | None \<Rightarrow> 0))
   \<and> (\<exists>k. parseOrbit m = Inr k \<and> 0 \<le> k \<and> k \<le> 300)
   \<and> ((parseOrbit m = Inr n \<and> 1 \<le> n \<and> n \<le> 300)
        = (\<exists>v vs. orbit_token_values m = v # vs \<and> frame_count v = Some n))"
  (is "?first \<and> ?total \<and> ?exact")
proof -
  have first: ?first by (rule parseOrbit_tokens)
  have total: ?total
    unfolding parseOrbit_tokens
    by (auto split: list.splits option.splits dest: frame_count_range)
  have exact: ?exact
    unfolding parseOrbit_tokens
    by (auto split: list.splits option.splits dest: frame_count_range)
  from first total exact show ?thesis by (intro conjI)
qed

text \<open>
  C9 as stated fails: the message \<^verbatim>\<open>orbit=x orbit=10\<close> contains an \<^verbatim>\<open>orbit=\<close> token
  whose value parses to 10, and \<open>parseOrbit\<close> returns 0.
\<close>

theorem parseOrbit_directive_counterexample:
  "parseOrbit ''orbit=x orbit=10'' = Inr 0 \<and> has_orbit_directive ''orbit=x orbit=10'' 10"
  by code_simp

subsection \<open>The contract of dequeue\<close>

lemma select_oldest_None:
  "(select_oldest st rows = None) = (\<not> (\<exists>r\<in>set rows. status r = st))"
proof -
  have "(sort_key created_at (filter (\<lambda>r. status r = st) rows) = []) = (filter (\<lambda>r. status r = st) rows = [])"
    by (metis length_sort length_0_conv)
  then show ?thesis
    by (auto simp: select_oldest_def filter_empty_conv split: list.splits)
qed

lemma select_oldest_SomeD:
  assumes "select_oldest st rows = Some r"
  shows "r \<in> set rows \<and> status r = st
       \<and> \<not> (\<exists>r'\<in>set rows. status r' = st \<and> created_at r' < created_at r)"
proof -
  let ?xs = "sort_key created_at (filter (\<lambda>r. status r = st) rows)"
  obtain rest where xs: "?xs = r # rest"
    using assms by (auto simp: select_oldest_def split: list.splits)
  have "r \<in> set ?xs" unfolding xs by simp
  then have mem: "r \<in> set rows \<and> status r = st" by simp
  have "sorted (map created_at ?xs)" by (rule sorted_sort_key)
  then have le: "\<forall>x\<in>set rest. created_at r \<le> created_at x" unfolding xs by simp
  have "\<not> (\<exists>r'\<in>set rows. status r' = st \<and> created_at r' < created_at r)"
  proof
    assume "\<exists>r'\<in>set rows. status r' = st \<and> created_at r' < created_at r"
    then obtain r' where r': "r' \<in> set rows" "status r' = st" "created_at r' < created_at r" by blast
    then have "r' \<in> set ?xs" by simp
    then have "r' = r \<or> r' \<in> set rest" unfolding xs by simp
    then show False using r'(3) le by auto
  qed
  with mem show ?thesis by simp
qed

lemma dequeue_pass_shutdown:
  "shutdown_requested q \<Longrightarrow> dequeue_pass item q = Returns (False, item, q)"
  by (simp add: dequeue_pass_def)

lemma dequeue_pass_Waits: "(dequeue_pass item q = Waits) = must_wait q"
proof (cases "select_oldest ''pending'' (db q)")
  case None
  then have "\<not> (\<exists>r\<in>set (db q). status r = ''pending'')"
    by (rule select_oldest_None[THEN iffD1])
  then show ?thesis using None by (simp add: dequeue_pass_def must_wait_def)
next
  case (Some r)
  have "\<exists>r\<in>set (db q). status r = ''pending''"
  proof (rule ccontr)
    assume "\<not> (\<exists>r\<in>set (db q). status r = ''pending'')"
    then have "select_oldest ''pending'' (db q) = None"
      by (rule select_oldest_None[THEN iffD2])
    then show False using Some by simp
  qed
  then show ?thesis using Some by (simp add: dequeue_pass_def must_wait_def)
qed

lemma dequeue_pass_True:
  "(dequeue_pass item q = Returns (True, it, q')) \<Longrightarrow> \<not> shutdown_requested q \<and> claimed q it q'"
  by (auto simp: dequeue_pass_def claimed_def split: if_splits option.splits dest!: select_oldest_SomeD)

lemma dequeue_pass_False:
  "(dequeue_pass item q = Returns (False, it, q')) \<Longrightarrow> shutdown_requested q \<and> it = item \<and> q' = q"
  by (auto simp: dequeue_pass_def split: if_splits option.splits)

lemma ex_le_Suc: "(\<exists>k\<le>Suc n. P k) = (P 0 \<or> (\<exists>k\<le>n. P (Suc k)))"
  by (metis Suc_le_mono le0 not0_implies_Suc)

lemma after_events_Cons: "after_events (e # es) q = after_events es (apply_event e q)"
  by (simp add: after_events_def)

lemma after_events_Nil: "after_events [] q = q"
  by (simp add: after_events_def)

lemma dequeue_run_pass:
  "dequeue_run (Caller # Caller # ss) Entering item q =
     (case dequeue_pass item q of
        Returns (ok, it, q') \<Rightarrow> Returned ok it q'
      | Waits \<Rightarrow> dequeue_run ss Waiting item q)"
  by (simp add: dequeue_pass_def split: option.splits)

lemma dequeue_run_asleep:
  "dequeue_run (Caller # Caller # ss) Waiting item q = dequeue_run ss Waiting item q"
  by simp

lemma undisturbed_Cons: "undisturbed (e # es) = Caller # Caller # Thread e # undisturbed es"
  by (simp add: undisturbed_def)

lemma dequeue_Nil: "dequeue [] item q = dequeue_pass item q"
  by (simp add: dequeue_def undisturbed_def dequeue_pass_def split: option.splits)

lemma wait_on_cases: "wait_on q q' = Entering \<or> wait_on q q' = Waiting"
  by (simp add: wait_on_def)

lemma not_woken_event: "wait_on q (apply_event e q) = Waiting \<Longrightarrow> e = CancelCurrentJob"
  by (cases e) (simp_all add: wait_on_def notified_def enqueue_def Let_def requestShutdown_def)

lemma cancel_keeps_waiting: "must_wait q \<Longrightarrow> must_wait (apply_event CancelCurrentJob q)"
  by (simp add: must_wait_def cancelCurrentJob_def split: option.splits)

lemma dequeue_Cons:
  "dequeue (e # es) item q =
     (case dequeue_pass item q of
        Returns res \<Rightarrow> Returns res
      | Waits \<Rightarrow> dequeue es item (apply_event e q))"
proof (cases "dequeue_pass item q")
  case (Returns res)
  obtain ok it q' where res: "res = (ok, it, q')" by (cases res) auto
  show ?thesis
    by (simp add: dequeue_def undisturbed_Cons dequeue_run_pass Returns res del: dequeue_run.simps)
next
  case Waits
  let ?next = "apply_event e q"
  have run: "dequeue_run (undisturbed (e # es)) Entering item q
               = dequeue_run (undisturbed es) (wait_on q ?next) item ?next"
    by (simp add: undisturbed_Cons dequeue_run_pass Waits del: dequeue_run.simps(2,3))
  obtain rest where rest: "undisturbed es = Caller # Caller # rest"
    by (simp add: undisturbed_def)
  have same: "dequeue_run (undisturbed es) (wait_on q ?next) item ?next
                = dequeue_run (undisturbed es) Entering item ?next"
  proof (cases "wait_on q ?next = Entering")
    case True
    then show ?thesis by simp
  next
    case False
    then have w: "wait_on q ?next = Waiting" using wait_on_cases[of q ?next] by simp
    then have e: "e = CancelCurrentJob" by (rule not_woken_event)
    have "must_wait q" using Waits by (rule dequeue_pass_Waits[THEN iffD1])
    then have "must_wait ?next" unfolding e by (rule cancel_keeps_waiting)
    then have p: "dequeue_pass item ?next = Waits" by (rule dequeue_pass_Waits[THEN iffD2])
    show ?thesis
      unfolding w rest by (simp only: dequeue_run_pass dequeue_run_asleep p blocking.simps)
  qed
  show ?thesis
    by (simp add: dequeue_def run same Waits)
qed

lemma dequeue_True:
  "dequeue es item q = Returns (True, it, q') \<Longrightarrow>
     \<exists>k\<le>length es. \<not> shutdown_requested (after_events (take k es) q)
                    \<and> claimed (after_events (take k es) q) it q'"
proof (induction es arbitrary: q)
  case Nil
  then show ?case using dequeue_pass_True[of item q it q']
    by (simp add: after_events_Nil dequeue_Nil)
next
  case (Cons e es)
  show ?case
  proof (cases "dequeue_pass item q")
    case (Returns res)
    then have "dequeue_pass item q = Returns (True, it, q')"
      using Cons.prems by (simp add: dequeue_Cons)
    then have "\<not> shutdown_requested q \<and> claimed q it q'" by (rule dequeue_pass_True)
    then show ?thesis by (simp add: ex_le_Suc after_events_Nil)
  next
    case Waits
    then have "dequeue es item (apply_event e q) = Returns (True, it, q')"
      using Cons.prems by (simp add: dequeue_Cons)
    from Cons.IH[OF this] show ?thesis
      by (simp add: ex_le_Suc after_events_Cons)
  qed
qed

lemma dequeue_run_True:
  "dequeue_run ss pc item q = Returned True it q' \<Longrightarrow> \<exists>q1. claimed q1 it q'"
proof (induction ss pc item q rule: dequeue_run.induct)
  case (3 ss item q)
  show ?case
  proof (cases "select_oldest ''pending'' (db q)")
    case None
    then show ?thesis using 3 by simp
  next
    case (Some r)
    then have "it = item_of_row r" and "q' = snd (markProcessing (row_id r) q)"
      using "3.prems" by simp_all
    then have "claimed q it q'"
      using select_oldest_SomeD[OF Some] unfolding claimed_def by blast
    then show ?thesis by blast
  qed
qed (simp_all split: if_splits)

lemma dequeue_run_False:
  "dequeue_run ss pc item q = Returned False it q' \<Longrightarrow> it = item \<and> shutdown_requested q'"
proof (induction ss pc item q rule: dequeue_run.induct)
  case (3 ss item q)
  then show ?case by (cases "select_oldest ''pending'' (db q)") simp_all
qed (simp_all split: if_splits)

lemma waiting_stays: "dequeue_run (replicate n Caller) Waiting item q = Inside Waiting q"
  by (induction n) simp_all

lemma claimed_flipped:
  assumes "claimed q it q'"
  shows "(\<exists>r\<in>set (db q'). row_id r = item_id it)
       \<and> (\<forall>r\<in>set (db q'). row_id r = item_id it \<longrightarrow> status r = ''processing'')"
proof -
  obtain r where r: "r \<in> set (db q)" "it = item_of_row r" "q' = snd (markProcessing (row_id r) q)"
    using assms unfolding claimed_def by blast
  let ?f = "\<lambda>x. if row_id x = row_id r then x\<lparr>status := ''processing''\<rparr> else x"
  have d: "db q' = map ?f (db q)" using r(3) by (simp add: markProcessing_def)
  have i: "item_id it = row_id r" using r(2) by (simp add: item_of_row_def)
  have "?f r \<in> ?f ` set (db q)" using r(1) by (rule imageI)
  then have "?f r \<in> set (db q')" unfolding d by (simp only: set_map)
  moreover have "row_id (?f r) = item_id it" using i by simp
  ultimately have ex: "\<exists>r\<in>set (db q'). row_id r = item_id it" by blast
  have "\<forall>x\<in>set (db q'). row_id x = item_id it \<longrightarrow> status x = ''processing''"
    unfolding d i by auto
  with ex show ?thesis by simp
qed


lemma fold_max_ge: "(a::int) \<le> fold max xs a \<and> (\<forall>x\<in>set xs. x \<le> fold max xs a)"
proof (induction xs arbitrary: a)
  case Nil
  show ?case by simp
next
  case (Cons y ys)
  have "max y a \<le> fold max ys (max y a)" and "\<forall>x\<in>set ys. x \<le> fold max ys (max y a)"
    using Cons.IH[of "max y a"] by simp_all
  then show ?case by auto
qed

lemma next_rowid_fresh: "r \<in> set (db q) \<Longrightarrow> row_id r < next_rowid q"
proof -
  assume "r \<in> set (db q)"
  then have "row_id r \<in> set (map row_id (db q))" by simp
  then have "row_id r \<le> fold max (map row_id (db q)) (db_seq q)"
    using fold_max_ge by blast
  then show ?thesis by (simp add: next_rowid_def)
qed

lemma enqueue_row:
  "\<exists>r. db (snd (enqueue it q)) = db q @ [r] \<and> row_id r = next_rowid q \<and> status r = ''pending''
       \<and> created_at r = item_created_at it
       \<and> shutdown_requested (snd (enqueue it q)) = shutdown_requested q"
  by (simp add: enqueue_def Let_def)

lemma dequeue_run_flipped:
  assumes "dequeue_run ss pc item q = Returned True it q'"
  shows "(\<exists>r\<in>set (db q'). row_id r = item_id it)
       \<and> (\<forall>r\<in>set (db q'). row_id r = item_id it \<longrightarrow> status r = ''processing'')"
proof -
  obtain q1 where "claimed q1 it q'" using dequeue_run_True[OF assms] by blast
  then show ?thesis by (rule claimed_flipped)
qed

text \<open>
  C6 at a shutdown that falls between the test and the wait of \<open>dequeue\<close>. Under every
  schedule a job that \<open>dequeue\<close> returns has been claimed under the mutex and its row is
  in \<^verbatim>\<open>'processing'\<close> at the return (\<open>dequeue_run_True\<close>, \<open>dequeue_run_flipped\<close>), a
  call that returns false has seen the flag (\<open>dequeue_run_False\<close>), and a shutdown that
  is signalled while the caller waits makes it return false. But \<open>requestShutdown\<close>
  takes no mutex. On an empty queue the caller
  tests the flag and finds it false; \<open>requestShutdown\<close> sets the flag and calls
  \<^verbatim>\<open>notify_all\<close> while nobody waits; the caller finds no pending row and waits. Now the
  shutdown is signalled, no job is pending, and the call does not return false: it stays
  blocked however many steps the caller is given. Only a later notification, such as that
  of an upload, or a spurious wake-up lets it see the flag.
\<close>

theorem shutdown_wakeup_lost:
  "dequeue_run [Caller, Thread RequestShutdown, Caller] Entering WorkItem_new (WorkQueue_new [] 0)
     = Inside Waiting (requestShutdown (WorkQueue_new [] 0))
   \<and> shutdown_requested (requestShutdown (WorkQueue_new [] 0))
   \<and> queue_condition (requestShutdown (WorkQueue_new [] 0)) = [notify_all]
   \<and> pending_rows (requestShutdown (WorkQueue_new [] 0)) = []
   \<and> (\<forall>n. dequeue_run (replicate n Caller) Waiting WorkItem_new (requestShutdown (WorkQueue_new [] 0))
            = Inside Waiting (requestShutdown (WorkQueue_new [] 0)))
   \<and> dequeue_run [Caller, Caller, Thread RequestShutdown, Caller] Entering WorkItem_new
        (WorkQueue_new [] 0)
     = Returned False WorkItem_new (requestShutdown (WorkQueue_new [] 0))
   \<and> dequeue_run [Caller, Thread RequestShutdown, Caller, Thread (Enqueue WorkItem_new), Caller]
        Entering WorkItem_new (WorkQueue_new [] 0)
     = Returned False WorkItem_new (snd (enqueue WorkItem_new (requestShutdown (WorkQueue_new [] 0))))"
  (is "?lost \<and> ?flag \<and> ?trace \<and> ?none \<and> ?stays \<and> ?asleep \<and> ?later")
proof -
  have lost: ?lost by code_simp
  have flag: ?flag by code_simp
  have trace: ?trace by code_simp
  have none: ?none by code_simp
  have stays: ?stays by (simp only: waiting_stays) simp
  have asleep: ?asleep by code_simp
  have later: ?later by code_simp
  from lost flag trace none stays asleep later show ?thesis by (intro conjI)
qed

subsection \<open>First in, first out\<close>

lemma map_insort_key: "map f (insort_key f x ys) = insort (f x) (map f ys)"
  by (induction ys) simp_all

lemma map_sort_key: "map f (sort_key f xs) = sort (map f xs)"
  by (induction xs) (simp_all add: map_insort_key)

lemma select_oldest_sorted:
  "sort_key created_at (filter (\<lambda>r. status r = st) rows) = r # rest \<Longrightarrow> select_oldest st rows = Some r"
  by (simp add: select_oldest_def)

lemma pending_after_completion:
  "filter (\<lambda>r. status r = ''pending'')
      (map (\<lambda>x. if row_id x = i then x\<lparr>status := ''completed'', bella_end_time := now\<rparr> else x)
        (map (\<lambda>x. if row_id x = i then x\<lparr>status := ''processing''\<rparr> else x) rows))
   = filter (\<lambda>x. row_id x \<noteq> i) (filter (\<lambda>r. status r = ''pending'') rows)"
  by (induction rows) auto

lemma serve_step:
  assumes ns: "\<not> shutdown_requested q"
    and hd: "sort_key created_at (pending_rows q) = r # rest"
  shows "\<exists>q2. serve (Suc n) now item q = item_of_row r # serve n now (item_of_row r) q2
            \<and> \<not> shutdown_requested q2
            \<and> pending_rows q2 = filter (\<lambda>x. row_id x \<noteq> row_id r) (pending_rows q)"
proof -
  let ?q1 = "snd (markProcessing (row_id r) q)"
  let ?q2 = "snd (markCompleted now (row_id r) ?q1)"
  have sel: "select_oldest ''pending'' (db q) = Some r"
    using hd unfolding pending_rows_def by (rule select_oldest_sorted)
  have d: "dequeue [] item q = Returns (True, item_of_row r, ?q1)"
    using ns sel by (simp add: dequeue_Nil dequeue_pass_def)
  have i: "item_id (item_of_row r) = row_id r" by (simp add: item_of_row_def)
  have s: "serve (Suc n) now item q = item_of_row r # serve n now (item_of_row r) ?q2"
    by (simp add: d i)
  have ns2: "\<not> shutdown_requested ?q2"
    using ns by (simp add: markCompleted_def markProcessing_def)
  have "db ?q2 = map (\<lambda>x. if row_id x = row_id r
                               then x\<lparr>status := ''completed'', bella_end_time := now\<rparr> else x)
                   (map (\<lambda>x. if row_id x = row_id r then x\<lparr>status := ''processing''\<rparr> else x) (db q))"
    by (simp add: markCompleted_def markProcessing_def del: map_map)
  then have p: "pending_rows ?q2 = filter (\<lambda>x. row_id x \<noteq> row_id r) (pending_rows q)"
    unfolding pending_rows_def by (simp only: pending_after_completion)
  from s ns2 p show ?thesis by blast
qed

lemma serve_sorted:
  assumes "\<not> shutdown_requested q"
    and "distinct (map row_id (pending_rows q))"
    and "length (pending_rows q) = n"
  shows "map item_created_at (serve n now item q)
           = map created_at (sort_key created_at (pending_rows q))"
  using assms
proof (induction n arbitrary: q item)
  case 0
  then show ?case by simp
next
  case (Suc n)
  let ?P = "pending_rows q"
  let ?xs = "sort_key created_at ?P"
  have "length ?xs = Suc n" using Suc.prems(3) by simp
  then obtain r rest where xs: "?xs = r # rest" by (cases ?xs) auto
  from serve_step[OF Suc.prems(1) xs, of n now item]
  obtain q2 where q2: "serve (Suc n) now item q = item_of_row r # serve n now (item_of_row r) q2"
      "\<not> shutdown_requested q2"
      "pending_rows q2 = filter (\<lambda>x. row_id x \<noteq> row_id r) ?P" by blast
  have dx: "distinct (map row_id ?xs)"
  proof -
    have "distinct ?P" and "inj_on row_id (set ?P)"
      using Suc.prems(2) by (simp_all add: distinct_map)
    then show ?thesis by (simp add: distinct_map)
  qed
  then have "row_id r \<notin> row_id ` set rest" unfolding xs by simp
  then have "\<forall>x\<in>set rest. row_id x \<noteq> row_id r" by (metis imageI)
  then have fr: "filter (\<lambda>x. row_id x \<noteq> row_id r) rest = rest" by simp
  have "sort_key created_at (pending_rows q2)
          = filter (\<lambda>x. row_id x \<noteq> row_id r) ?xs"
    unfolding q2(3) by (rule filter_sort[symmetric])
  then have s2: "sort_key created_at (pending_rows q2) = rest"
    unfolding xs using fr by simp
  have d2: "distinct (map row_id (pending_rows q2))"
    unfolding q2(3) using Suc.prems(2) by (rule distinct_map_filter)
  have "length (sort_key created_at (pending_rows q2)) = n"
    using s2 \<open>length ?xs = Suc n\<close> xs by simp
  then have l2: "length (pending_rows q2) = n" by simp
  have "map item_created_at (serve n now (item_of_row r) q2) = map created_at rest"
    using Suc.IH[OF q2(2) d2 l2] s2 by simp
  then show ?case unfolding q2(1) xs by (simp add: item_of_row_def)
qed


lemma enqueue_all_Cons: "enqueue_all (it # items) q = enqueue_all items (snd (enqueue it q))"
  by (simp add: enqueue_all_def)

lemma enqueue_all_rows:
  "\<exists>news. db (enqueue_all items q) = db q @ news
         \<and> map created_at news = map item_created_at items
         \<and> (\<forall>r\<in>set news. status r = ''pending'')
         \<and> distinct (map row_id news)
         \<and> (\<forall>r\<in>set news. \<forall>x\<in>set (db q). row_id x < row_id r)
         \<and> shutdown_requested (enqueue_all items q) = shutdown_requested q"
proof (induction items arbitrary: q)
  case Nil
  show ?case by (simp add: enqueue_all_def)
next
  case (Cons it items)
  let ?q1 = "snd (enqueue it q)"
  obtain r where r: "db ?q1 = db q @ [r]" "row_id r = next_rowid q" "status r = ''pending''"
      "created_at r = item_created_at it" "shutdown_requested ?q1 = shutdown_requested q"
    using enqueue_row by blast
  obtain news where n: "db (enqueue_all items ?q1) = db ?q1 @ news"
      "map created_at news = map item_created_at items"
      "\<forall>r\<in>set news. status r = ''pending''"
      "distinct (map row_id news)"
      "\<forall>r\<in>set news. \<forall>x\<in>set (db ?q1). row_id x < row_id r"
      "shutdown_requested (enqueue_all items ?q1) = shutdown_requested ?q1"
    using Cons.IH[of ?q1] by blast
  have above: "\<forall>x\<in>set (db q). row_id x < row_id r" using next_rowid_fresh r(2) by simp
  have rnew: "\<forall>y\<in>set news. row_id r < row_id y" using n(5) r(1) by simp
  have old: "\<forall>y\<in>set news. \<forall>x\<in>set (db q). row_id x < row_id y" using n(5) r(1) by simp
  have "row_id r \<notin> row_id ` set news" using rnew by force
  then have d: "distinct (map row_id (r # news))" using n(4) by simp
  have 1: "db (enqueue_all (it # items) q) = db q @ (r # news)"
    using n(1) r(1) by (simp add: enqueue_all_Cons)
  have 2: "map created_at (r # news) = map item_created_at (it # items)" using n(2) r(4) by simp
  have 3: "\<forall>x\<in>set (r # news). status x = ''pending''" using n(3) r(3) by simp
  have 4: "\<forall>y\<in>set (r # news). \<forall>x\<in>set (db q). row_id x < row_id y" using above old by simp
  have 5: "shutdown_requested (enqueue_all (it # items) q) = shutdown_requested q"
    using n(6) r(5) by (simp add: enqueue_all_Cons)
  from 1 2 3 d 4 5 show ?case by blast
qed

lemma serve_pending:
  assumes "\<not> shutdown_requested q" and "distinct (map row_id (pending_rows q))"
  shows "map item_created_at (serve (length (pending_rows q)) now item q)
           = sort (map created_at (pending_rows q))"
  using serve_sorted[OF assms refl] by (simp only: map_sort_key)

lemma serve_enqueued:
  assumes ns: "\<not> shutdown_requested q" and np: "pending_rows q = []"
  shows "map item_created_at (serve (length items) now item (enqueue_all items q))
           = sort (map item_created_at items)"
proof -
  obtain news where n: "db (enqueue_all items q) = db q @ news"
      "map created_at news = map item_created_at items"
      "\<forall>r\<in>set news. status r = ''pending''"
      "distinct (map row_id news)"
      "shutdown_requested (enqueue_all items q) = shutdown_requested q"
    using enqueue_all_rows[of items q] by blast
  have "filter (\<lambda>r. status r = ''pending'') news = news" using n(3) by simp
  then have p: "pending_rows (enqueue_all items q) = news"
    using np n(1) by (simp add: pending_rows_def)
  have l: "length news = length items" using n(2) by (metis length_map)
  have "map item_created_at (serve (length (pending_rows (enqueue_all items q))) now item (enqueue_all items q))
           = sort (map created_at (pending_rows (enqueue_all items q)))"
    using ns n(4) n(5) p by (intro serve_pending) simp_all
  then show ?thesis unfolding p l n(2) .
qed

lemma markFailed_keeps_order:
  assumes "filter (\<lambda>x. row_id x = i) (db q) = r # rs"
    and "sqlite3_column_int (retry_count r) < M"
  shows "map created_at (db (snd (markFailed i M q))) = map created_at (db q)
       \<and> map row_id (db (snd (markFailed i M q))) = map row_id (db q)"
proof -
  have "markFailed i M q =
     (True, q\<lparr>db := map (\<lambda>x. if row_id x = i
                then x\<lparr>retry_count := sqlite3_column_int (retry_count r) + 1, status := ''pending''\<rparr>
                else x) (db q),
              queue_condition := queue_condition q @ [notify_one]\<rparr>)"
    using assms by (rule markFailed_found_retry)
  then show ?thesis by (simp add: comp_def if_distrib cong: if_cong)
qed

lemma retry_reoccupies:
  assumes r: "r \<in> set (db q)" "row_id r = i"
    and uniq: "\<forall>x\<in>set (db q). row_id x = i \<longrightarrow> x = r"
    and lt: "sqlite3_column_int (retry_count r) < M"
    and ns: "\<not> shutdown_requested q"
    and oldest: "\<forall>x\<in>set (db q). status x = ''pending'' \<and> x \<noteq> r \<longrightarrow> created_at r < created_at x"
  shows "\<exists>it q'. dequeue [] item (snd (markFailed i M q)) = Returns (True, it, q')
               \<and> item_id it = i \<and> item_created_at it = created_at r"
proof -
  let ?f = "\<lambda>x. if row_id x = i
                then x\<lparr>retry_count := sqlite3_column_int (retry_count r) + 1, status := ''pending''\<rparr>
                else x"
  let ?q1 = "snd (markFailed i M q)"
  have "filter (\<lambda>x. row_id x = i) (db q) \<noteq> []" using r by (auto simp: filter_empty_conv)
  then obtain r0 rs where f0: "filter (\<lambda>x. row_id x = i) (db q) = r0 # rs"
    by (cases "filter (\<lambda>x. row_id x = i) (db q)") auto
  have "r0 \<in> set (db q) \<and> row_id r0 = i" using filter_hd_props[OF f0] .
  then have "r0 = r" using uniq by blast
  then have f: "filter (\<lambda>x. row_id x = i) (db q) = r # rs" using f0 by simp
  have q1: "?q1 = q\<lparr>db := map ?f (db q), queue_condition := queue_condition q @ [notify_one]\<rparr>"
    by (simp add: markFailed_found_retry[OF f lt])
  have ns1: "\<not> shutdown_requested ?q1" using ns by (simp add: q1)
  have d1: "db ?q1 = map ?f (db q)" by (simp add: q1)
  have "?f r \<in> ?f ` set (db q)" using r(1) by (rule imageI)
  then have r1in: "?f r \<in> set (db ?q1)" unfolding d1 by (simp only: set_map)
  have r1p: "status (?f r) = ''pending''" using r(2) by simp
  have "dequeue_pass item ?q1 \<noteq> Waits" using ns1 r1in r1p by (rule pending_not_waits)
  then obtain res where res: "dequeue_pass item ?q1 = Returns res"
    by (cases "dequeue_pass item ?q1") auto
  obtain ok it q' where t: "res = (ok, it, q')" by (cases res) auto
  have "ok" using res t ns1 dequeue_pass_False[of item ?q1 it q'] by (cases ok) auto
  then have dp: "dequeue_pass item ?q1 = Returns (True, it, q')" using res t by simp
  then have "claimed ?q1 it q'" using dequeue_pass_True by blast
  then obtain x' where x': "x' \<in> set (db ?q1)" "status x' = ''pending''"
      "\<not> (\<exists>y\<in>set (db ?q1). status y = ''pending'' \<and> created_at y < created_at x')"
      "it = item_of_row x'"
    unfolding claimed_def by blast
  obtain x where x: "x \<in> set (db q)" "x' = ?f x" using x'(1) unfolding d1 by auto
  have "row_id x = i"
  proof (rule ccontr)
    assume ne: "row_id x \<noteq> i"
    then have same: "x' = x" using x(2) by simp
    then have "status x = ''pending''" and "x \<noteq> r" using x'(2) ne r(2) by auto
    then have "created_at r < created_at x" using oldest x(1) by blast
    moreover have "created_at (?f r) = created_at r" by simp
    ultimately have "created_at (?f r) < created_at x'" using same by simp
    then show False using x'(3) r1in r1p by blast
  qed
  then have "x = r" using uniq x(1) by blast
  then have "it = item_of_row (?f r)" using x'(4) x(2) by simp
  then have "item_id it = i \<and> item_created_at it = created_at r"
    using r(2) by (simp add: item_of_row_def)
  then show ?thesis using dp by (simp add: dequeue_Nil)
qed


text \<open>
  C2. \<open>dequeue\<close> returns a pending job that no pending job precedes in creation time.
  Hence the worker serves the pending jobs of any queue in the order of their creation
  times, and serves a sequence of uploads with distinct creation times in creation-time
  order. A job that \<open>markFailed\<close> returns to \<^verbatim>\<open>'pending'\<close> keeps its creation time, as
  every row keeps its id and creation time; if it was older than every pending job, the
  next \<open>dequeue\<close> returns it again, ahead of the jobs that were enqueued after it.
\<close>

theorem fifo_order:
  "(\<forall>it q'. dequeue es item q = Returns (True, it, q') \<longrightarrow>
       (\<exists>k\<le>length es. claimed (after_events (take k es) q) it q'))
   \<and> (\<not> shutdown_requested q \<and> distinct (map row_id (pending_rows q)) \<longrightarrow>
        map item_created_at (serve (length (pending_rows q)) now item q)
          = sort (map created_at (pending_rows q)))
   \<and> (distinct (map item_created_at items) \<and> \<not> shutdown_requested q \<and> pending_rows q = [] \<longrightarrow>
        map item_created_at (serve (length items) now item (enqueue_all items q))
          = sort (map item_created_at items))
   \<and> (\<forall>r rs. filter (\<lambda>x. row_id x = i) (db q) = r # rs \<and> sqlite3_column_int (retry_count r) < M \<longrightarrow>
        map created_at (db (snd (markFailed i M q))) = map created_at (db q)
        \<and> map row_id (db (snd (markFailed i M q))) = map row_id (db q))
   \<and> (\<forall>r. r \<in> set (db q) \<and> row_id r = i \<and> (\<forall>x\<in>set (db q). row_id x = i \<longrightarrow> x = r)
          \<and> sqlite3_column_int (retry_count r) < M \<and> \<not> shutdown_requested q
          \<and> (\<forall>x\<in>set (db q). status x = ''pending'' \<and> x \<noteq> r \<longrightarrow> created_at r < created_at x) \<longrightarrow>
        (\<exists>it q'. dequeue [] item (snd (markFailed i M q)) = Returns (True, it, q')
                 \<and> item_id it = i \<and> item_created_at it = created_at r))"
  (is "?select \<and> ?pending \<and> ?enqueued \<and> ?keeps \<and> ?again")
proof -
  have select: ?select
    using dequeue_True by blast
  have pending: ?pending using serve_pending by blast
  have enqueued: ?enqueued using serve_enqueued by blast
  have keeps: ?keeps using markFailed_keeps_order by blast
  have again: ?again
  proof (intro allI impI)
    fix r
    assume a: "r \<in> set (db q) \<and> row_id r = i \<and> (\<forall>x\<in>set (db q). row_id x = i \<longrightarrow> x = r)
          \<and> sqlite3_column_int (retry_count r) < M \<and> \<not> shutdown_requested q
          \<and> (\<forall>x\<in>set (db q). status x = ''pending'' \<and> x \<noteq> r \<longrightarrow> created_at r < created_at x)"
    show "\<exists>it q'. dequeue [] item (snd (markFailed i M q)) = Returns (True, it, q')
                 \<and> item_id it = i \<and> item_created_at it = created_at r"
      by (rule retry_reoccupies) (use a in blast)+
  qed
  from select pending enqueued keeps again show ?thesis by (intro conjI)
qed

theorem fifo_order_witness:
  "db late_upload = [job_row 1 20 0 ''pending'' 0, job_row 2 10 0 ''processing'' 0,
                     job_row 3 30 0 ''pending'' 0]
   \<and> map item_created_at
        (serve 2 0 WorkItem_new
           (enqueue_all [WorkItem_new\<lparr>item_created_at := 20\<rparr>,
                         WorkItem_new\<lparr>item_created_at := 10\<rparr>] (WorkQueue_new [] 0))) = [10, 20]
   \<and> map created_at (db (snd (markFailed 2 3 late_upload))) = [20, 10, 30]
   \<and> (\<exists>it q'. dequeue [] WorkItem_new (snd (markFailed 2 3 late_upload)) = Returns (True, it, q')
          \<and> item_id it = 2 \<and> item_created_at it = 10)
   \<and> map item_created_at (serve 3 0 WorkItem_new (snd (markFailed 2 3 late_upload))) = [10, 20, 30]
   \<and> map item_retry_count (serve 3 0 WorkItem_new (snd (markFailed 2 3 late_upload))) = [1, 0, 0]"
proof -
  let ?items = "[WorkItem_new\<lparr>item_created_at := 20\<rparr>, WorkItem_new\<lparr>item_created_at := 10\<rparr>]"
  let ?empty = "WorkQueue_new [] 0"
  let ?r = "job_row 2 10 0 ''processing'' 0"
  let ?q = "snd (markFailed 2 3 late_upload)"
  have d: "db late_upload = [job_row 1 20 0 ''pending'' 0, ?r, job_row 3 30 0 ''pending'' 0]"
    by code_simp
  \<comment> \<open>a sequence of uploads\<close>
  have h3: "distinct (map item_created_at ?items) \<and> \<not> shutdown_requested ?empty \<and> pending_rows ?empty = []"
    by code_simp
  have a3: "map item_created_at (serve (length ?items) 0 WorkItem_new (enqueue_all ?items ?empty))
          = sort (map item_created_at ?items)"
    using fifo_order[where q = ?empty and items = ?items and now = 0 and item = WorkItem_new,
            THEN conjunct2, THEN conjunct2, THEN conjunct1] h3 by (rule mp)
  have len3: "length ?items = 2" by simp
  have srt3: "sort (map item_created_at ?items) = [10, 20]" by code_simp
  have uploads: "map item_created_at (serve 2 0 WorkItem_new (enqueue_all ?items ?empty)) = [10, 20]"
    using a3 by (simp only: len3 srt3)
  \<comment> \<open>the retry of job 2\<close>
  note t = fifo_order[where q = late_upload and i = 2 and M = 3 and item = WorkItem_new]
  note t4 = t[THEN conjunct2, THEN conjunct2, THEN conjunct2, THEN conjunct1]
  note t5 = t[THEN conjunct2, THEN conjunct2, THEN conjunct2, THEN conjunct2]
  have h4: "filter (\<lambda>x. row_id x = 2) (db late_upload) = ?r # []
            \<and> sqlite3_column_int (retry_count ?r) < 3" by code_simp
  have "map created_at (db ?q) = map created_at (db late_upload)"
    using t4[THEN spec, of ?r, THEN spec, of "[]", THEN mp, OF h4] by (rule conjunct1)
  moreover have "map created_at (db late_upload) = [20, 10, 30]" by code_simp
  ultimately have keeps: "map created_at (db ?q) = [20, 10, 30]" by simp
  have h5: "?r \<in> set (db late_upload) \<and> row_id ?r = 2
          \<and> (\<forall>x\<in>set (db late_upload). row_id x = 2 \<longrightarrow> x = ?r)
          \<and> sqlite3_column_int (retry_count ?r) < 3 \<and> \<not> shutdown_requested late_upload
          \<and> (\<forall>x\<in>set (db late_upload). status x = ''pending'' \<and> x \<noteq> ?r \<longrightarrow> created_at ?r < created_at x)"
    unfolding d by code_simp
  have "\<exists>it q'. dequeue [] WorkItem_new ?q = Returns (True, it, q')
                 \<and> item_id it = 2 \<and> item_created_at it = created_at ?r"
    using t5[THEN spec, of ?r] h5 by (rule mp)
  moreover have "created_at ?r = 10" by code_simp
  ultimately have again: "\<exists>it q'. dequeue [] WorkItem_new ?q = Returns (True, it, q')
          \<and> item_id it = 2 \<and> item_created_at it = 10" by simp
  \<comment> \<open>the order of service after the retry\<close>
  have h2: "\<not> shutdown_requested ?q \<and> distinct (map row_id (pending_rows ?q))" by code_simp
  have a2: "map item_created_at (serve (length (pending_rows ?q)) 0 WorkItem_new ?q)
          = sort (map created_at (pending_rows ?q))"
    using fifo_order[where q = ?q and now = 0 and item = WorkItem_new,
            THEN conjunct2, THEN conjunct1] h2 by (rule mp)
  have len2: "length (pending_rows ?q) = 3" by code_simp
  have srt2: "sort (map created_at (pending_rows ?q)) = [10, 20, 30]" by code_simp
  have order: "map item_created_at (serve 3 0 WorkItem_new ?q) = [10, 20, 30]"
    using a2 by (simp only: len2 srt2)
  have rc: "map item_retry_count (serve 3 0 WorkItem_new ?q) = [1, 0, 0]" by code_simp
  from d uploads keeps again order rc show ?thesis by (intro conjI)
qed

subsection \<open>A pipeline failure in the worker loop\<close>

text \<open>
  C3 at a job whose archive cannot be unpacked. One job is uploaded; the worker dequeues
  it, the download succeeds, \<^verbatim>\<open>unzip\<close> fails, \<open>processVmaxFile\<close> returns the empty
  string and nobody asks for cancellation. The worker loop then makes no outcome call
  at all (no \<open>markFailed\<close>, no \<open>markCompleted\<close>, no acknowledgement): the row stays in
  \<^verbatim>\<open>'processing'\<close> and its retry count stays 0.
\<close>

theorem pipeline_failure_leaves_processing:
  "calls (workerThread
            [Other (Enqueue (upload ''a.vmax.zip'' [] 10)),
             Work (healthy_env\<lparr>unzip_result := 1\<rparr>) [] []]
            Running WorkItem_new (started 500)) = []
   \<and> map status (db (queue (workerThread
            [Other (Enqueue (upload ''a.vmax.zip'' [] 10)),
             Work (healthy_env\<lparr>unzip_result := 1\<rparr>) [] []]
            Running WorkItem_new (started 500)))) = [''processing'']
   \<and> map retry_count (db (queue (workerThread
            [Other (Enqueue (upload ''a.vmax.zip'' [] 10)),
             Work (healthy_env\<lparr>unzip_result := 1\<rparr>) [] []]
            Running WorkItem_new (started 500)))) = [0]"
  by code_simp

subsection \<open>Staging paths after processVmaxFile\<close>

text \<open>
  C4 at two exits of \<open>processVmaxFile\<close>. When the archive has no \<^verbatim>\<open>scene.json\<close> the
  function returns the empty string at line 750, and the working directory and the
  temporary input file of the job are still there. When a cancellation is seen by the
  check before the first frame of an orbit animation (line 1050), the worker acknowledges
  it, and both paths are still there after the loop body.
\<close>

theorem staging_paths_left_behind:
  "fst (processVmaxFile (healthy_env\<lparr>scene_json_exists := False\<rparr>) ''a.vmax.zip'' [] 1
          (started 500)) = []
   \<and> work_dir 1 \<in> files (snd (processVmaxFile (healthy_env\<lparr>scene_json_exists := False\<rparr>)
                                  ''a.vmax.zip'' [] 1 (started 500)))
   \<and> temp_vmax_filename 1 \<in> files (snd (processVmaxFile (healthy_env\<lparr>scene_json_exists := False\<rparr>)
                                  ''a.vmax.zip'' [] 1 (started 500)))
   \<and> calls (workerThread
            [Other (Enqueue (upload ''a.vmax.zip'' ''orbit=2'' 10)),
             Work healthy_env [False, False, False, False, True] []]
            Running WorkItem_new (started 500)) = [CallMarkCurrentJobCancelled]
   \<and> work_dir 1 \<in> files (workerThread
            [Other (Enqueue (upload ''a.vmax.zip'' ''orbit=2'' 10)),
             Work healthy_env [False, False, False, False, True] []]
            Running WorkItem_new (started 500))
   \<and> temp_vmax_filename 1 \<in> files (workerThread
            [Other (Enqueue (upload ''a.vmax.zip'' ''orbit=2'' 10)),
             Work healthy_env [False, False, False, False, True] []]
            Running WorkItem_new (started 500))"
  by code_simp

subsection \<open>Two rows in processing\<close>

text \<open>
  C8 at two uploads of which the first cannot be unpacked. After initialization two jobs
  are enqueued. The worker dequeues job 1, whose pipeline fails, and goes on to the next
  \<open>dequeue\<close>: it returns job 2, and in the queue it returns two rows are in
  \<^verbatim>\<open>'processing'\<close>. When the pipeline of job 2 fails as well, both rows stay so.
\<close>

theorem two_rows_processing:
  "(case dequeue [] WorkItem_new
           (queue (workerThread
              [Other (Enqueue (upload ''a.vmax.zip'' [] 10)),
               Other (Enqueue (upload ''b.vmax.zip'' [] 20)),
               Work (healthy_env\<lparr>unzip_result := 1\<rparr>) [] []]
              Running WorkItem_new (started 500))) of
      Returns (ok, it, q') \<Rightarrow> (ok, item_id it, processing_count q')
    | Waits \<Rightarrow> (False, 0, 0)) = (True, 2, 2)
   \<and> processing_count (queue (workerThread
              [Other (Enqueue (upload ''a.vmax.zip'' [] 10)),
               Other (Enqueue (upload ''b.vmax.zip'' [] 20)),
               Work (healthy_env\<lparr>unzip_result := 1\<rparr>) [] [],
               Work (healthy_env\<lparr>unzip_result := 1\<rparr>) [] []]
              Running WorkItem_new (started 500))) = 2"
  by code_simp

end
